theory Spec2Isabelle
  imports Complex_Main
begin

section \<open>JavaScript numbers\<close>

text \<open>
  A JavaScript \<open>number\<close> is an IEEE-754 binary64 value. The model keeps the finite
  values as rationals and the three special values as constructors. Every arithmetic
  operation computes the exact rational result and rounds it with \<open>round_to_double\<close>
  (round to nearest, ties to even, 53 significant bits, subnormals below \<open>2^-1022\<close>,
  overflow to an infinity). Negative zero is identified with zero: the program never
  divides by a variable and never prints a sign of zero, so the two are
  indistinguishable in everything modelled here.
\<close>

datatype number = Finite rat | PosInfinity | NegInfinity | NaN

definition pow2 :: "int \<Rightarrow> rat" where
  "pow2 k = (if 0 \<le> k then 2 ^ nat k else 1 / 2 ^ nat (- k))"

function bitlen :: "int \<Rightarrow> int" where
  "bitlen k = (if k \<le> 0 then 0 else 1 + bitlen (k div 2))"
  by pat_completeness auto
termination
  by (relation "measure nat") auto

declare bitlen.simps [simp del]

text \<open>\<open>binade q\<close> is the exponent \<open>e\<close> with \<open>2^e \<le> |q| < 2^(e+1)\<close>, for \<open>q \<noteq> 0\<close>.\<close>

definition binade :: "rat \<Rightarrow> int" where
  "binade q = (if 1 \<le> \<bar>q\<bar> then bitlen \<lfloor>\<bar>q\<bar>\<rfloor> - 1
               else - bitlen (\<lceil>1 / \<bar>q\<bar>\<rceil> - 1))"

definition round_half_even :: "rat \<Rightarrow> int" where
  "round_half_even x =
     (let f = \<lfloor>x\<rfloor>; r = x - of_int f
      in if r < 1 / 2 then f else if 1 / 2 < r then f + 1
         else if even f then f else f + 1)"

definition round_to_double :: "rat \<Rightarrow> number" where
  "round_to_double q =
     (if q = 0 then Finite 0
      else
        let e = max (binade q) (- 1022);
            ulp = pow2 (e - 52);
            m = round_half_even (\<bar>q\<bar> / ulp)
        in if 1023 < e \<or> (e = 1023 \<and> 9007199254740992 \<le> m)
           then (if 0 < q then PosInfinity else NegInfinity)
           else Finite (sgn q * (of_int m * ulp)))"

text \<open>The sign of a number that is not NaN, and the infinity (or NaN) of a sign.\<close>

fun sign_of :: "number \<Rightarrow> rat" where
  "sign_of (Finite a) = sgn a"
| "sign_of PosInfinity = 1"
| "sign_of NegInfinity = - 1"
| "sign_of NaN = 0"

definition inf_of_sign :: "rat \<Rightarrow> number" where
  "inf_of_sign s = (if 0 < s then PosInfinity else if s < 0 then NegInfinity else NaN)"

text \<open>\<open>x + y\<close>\<close>

fun js_add :: "number \<Rightarrow> number \<Rightarrow> number" where
  "js_add NaN y = NaN"
| "js_add x NaN = NaN"
| "js_add (Finite a) (Finite b) = round_to_double (a + b)"
| "js_add PosInfinity NegInfinity = NaN"
| "js_add NegInfinity PosInfinity = NaN"
| "js_add PosInfinity y = PosInfinity"
| "js_add x PosInfinity = PosInfinity"
| "js_add NegInfinity y = NegInfinity"
| "js_add x NegInfinity = NegInfinity"


text \<open>\<open>x * y\<close>\<close>

fun js_mul :: "number \<Rightarrow> number \<Rightarrow> number" where
  "js_mul NaN y = NaN"
| "js_mul x NaN = NaN"
| "js_mul (Finite a) (Finite b) = round_to_double (a * b)"
| "js_mul x y = inf_of_sign (sign_of x * sign_of y)"

text \<open>\<open>x / y\<close>; a zero divisor is taken as \<open>+0\<close>.\<close>

fun js_div :: "number \<Rightarrow> number \<Rightarrow> number" where
  "js_div NaN y = NaN"
| "js_div x NaN = NaN"
| "js_div (Finite a) (Finite b) =
     (if b = 0 then inf_of_sign (sgn a) else round_to_double (a / b))"
| "js_div (Finite a) y = Finite 0"
| "js_div x (Finite b) = inf_of_sign (sign_of x * (if b < 0 then - 1 else 1))"
| "js_div x y = NaN"

text \<open>\<open>x < y\<close>, \<open>x > y\<close>, \<open>x <= y\<close>, \<open>x >= y\<close>: every comparison with NaN is false.\<close>

fun js_lt :: "number \<Rightarrow> number \<Rightarrow> bool" where
  "js_lt NaN y = False"
| "js_lt x NaN = False"
| "js_lt (Finite a) (Finite b) = (a < b)"
| "js_lt x NegInfinity = False"
| "js_lt PosInfinity y = False"
| "js_lt NegInfinity y = True"
| "js_lt x PosInfinity = True"

definition js_gt :: "number \<Rightarrow> number \<Rightarrow> bool" where
  "js_gt x y = js_lt y x"

definition js_le :: "number \<Rightarrow> number \<Rightarrow> bool" where
  "js_le x y = (x \<noteq> NaN \<and> y \<noteq> NaN \<and> \<not> js_lt y x)"

definition js_ge :: "number \<Rightarrow> number \<Rightarrow> bool" where
  "js_ge x y = js_le y x"

text \<open>\<open>Number.isFinite\<close> and \<open>Number.isInteger\<close>.\<close>

fun Number_isFinite :: "number \<Rightarrow> bool" where
  "Number_isFinite (Finite a) = True"
| "Number_isFinite x = False"

fun Number_isInteger :: "number \<Rightarrow> bool" where
  "Number_isInteger (Finite a) = (of_int \<lfloor>a\<rfloor> = a)"
| "Number_isInteger x = False"

section \<open>Types of the engine\<close>

record UserRules =
  unit_pct :: number
  daily_pct :: number
  weekly_pct :: number
  group1_pct :: number
  group2_pct :: number
  freq_cap :: number
  odds_gate :: number

datatype Verdict = ALLOW | WARN | HARD_WARN | RED_ALERT

record LedgerEntry =
  id :: string
  ts :: number
  stake :: number
  odds :: number
  group1_id :: string
  group2_id :: string
  verdict :: Verdict
  reasons :: "string list"

record ProposedBet =
  stake :: number
  odds :: number
  group1_id :: string
  group2_id :: string

record Exposures =
  daily_staked :: number
  weekly_staked :: number
  same_group1_staked :: number
  same_group2_7d_staked :: number
  bets_today :: number

record BehavioralState =
  stake_velocity_spike :: bool
  frequency_spike :: bool
  consecutive_overrides :: number
  cooldown_violations :: number
  cooldown_active :: bool

record DecisionResult =
  verdict :: Verdict
  reasons :: "string list"
  friction_required :: bool
  cooldown_triggered :: bool

section \<open>The decision engine\<close>

text \<open>The reason codes, the constant \<open>R\<close> of the source.\<close>

definition R_UNIT :: string where "R_UNIT = ''UNIT_SIZE_CAP_EXCEEDED''"
definition R_DAILY :: string where "R_DAILY = ''DAILY_EXPOSURE_CAP_EXCEEDED''"
definition R_WEEKLY :: string where "R_WEEKLY = ''WEEKLY_EXPOSURE_CAP_EXCEEDED''"
definition R_EVENT :: string where "R_EVENT = ''SAME_EVENT_CONCENTRATION_CAP_EXCEEDED''"
definition R_TEAM :: string where "R_TEAM = ''SAME_TEAM_7D_CONCENTRATION_CAP_EXCEEDED''"
definition R_FREQ :: string where "R_FREQ = ''ACTION_FREQUENCY_CAP_EXCEEDED''"
definition R_ODDS :: string where "R_ODDS = ''HIGH_RISK_ODDS_GATE''"
definition R_STAKE_SPIKE :: string where "R_STAKE_SPIKE = ''STAKE_VELOCITY_SPIKE''"
definition R_FREQ_SPIKE :: string where "R_FREQ_SPIKE = ''FREQUENCY_SPIKE''"
definition R_CONS_OVR :: string where "R_CONS_OVR = ''CONSECUTIVE_OVERRIDES_HIGH''"
definition R_CD_HIST :: string where "R_CD_HIST = ''COOLDOWN_VIOLATION_HISTORY''"
definition R_CD_ACTIVE :: string where "R_CD_ACTIVE = ''COOLDOWN_ACTIVE''"

definition DEFAULT_RULES :: UserRules where
  "DEFAULT_RULES =
     \<lparr>unit_pct = Finite 2, daily_pct = Finite 6, weekly_pct = Finite 20,
      group1_pct = Finite 4, group2_pct = Finite 8, freq_cap = Finite 5,
      odds_gate = Finite 250\<rparr>"

definition isValidAmericanOdds :: "number \<Rightarrow> bool" where
  "isValidAmericanOdds n = (Number_isFinite n \<and> Number_isInteger n \<and> n \<noteq> Finite 0)"

text \<open>The ranks are the literals 0 to 3, compared with \<open>>=\<close>; they are kept as naturals.\<close>

definition rank :: "Verdict \<Rightarrow> nat" where
  "rank v = (if v = ALLOW then 0 else if v = WARN then 1 else if v = HARD_WARN then 2 else 3)"

definition maxTier :: "Verdict \<Rightarrow> Verdict \<Rightarrow> Verdict" where
  "maxTier a b = (if rank a \<ge> rank b then a else b)"

definition escalateOneTier :: "Verdict \<Rightarrow> Verdict" where
  "escalateOneTier v = (if v = ALLOW then WARN else if v = WARN then HARD_WARN else RED_ALERT)"

text \<open>\<open>xs.push(x)\<close> on a local array: the array after the call.\<close>

definition push :: "'a list \<Rightarrow> 'a \<Rightarrow> 'a list" where
  "push xs x = xs @ [x]"

text \<open>
  \<open>evaluate_v1\<close> of the rules-aware engine, statement by statement. A \<open>let\<close> that
  binds a name again is the assignment (or the \<open>push\<close>) of the source.
\<close>

definition evaluate_v1 ::
  "number \<Rightarrow> UserRules \<Rightarrow> ProposedBet \<Rightarrow> Exposures \<Rightarrow> 'a BehavioralState_scheme
     \<Rightarrow> DecisionResult" where
  "evaluate_v1 bankroll rules bet exps beh =
     (if cooldown_active beh
      then \<lparr>verdict = RED_ALERT, reasons = [R_CD_ACTIVE],
            friction_required = True, cooldown_triggered = True\<rparr>
      else
        let B = bankroll; S = stake bet;
            unit_cap = js_mul B (js_div (unit_pct rules) (Finite 100));
            daily_cap = js_mul B (js_div (daily_pct rules) (Finite 100));
            weekly_cap = js_mul B (js_div (weekly_pct rules) (Finite 100));
            event_cap = js_mul B (js_div (group1_pct rules) (Finite 100));
            team_cap = js_mul B (js_div (group2_pct rules) (Finite 100));
            post_daily = js_add (daily_staked exps) S;
            post_weekly = js_add (weekly_staked exps) S;
            post_event = js_add (same_group1_staked exps) S;
            post_team7d = js_add (same_group2_7d_staked exps) S;
            post_bets = js_add (bets_today exps) (Finite 1);
            violations = [];
            gates = [];
            flags = [];
            violations = (if js_gt S unit_cap then push violations R_UNIT else violations);
            violations = (if js_gt post_daily daily_cap then push violations R_DAILY
                          else violations);
            violations = (if js_gt post_weekly weekly_cap then push violations R_WEEKLY
                          else violations);
            violations = (if js_gt post_event event_cap then push violations R_EVENT
                          else violations);
            violations = (if js_gt post_team7d team_cap then push violations R_TEAM
                          else violations);
            violations = (if js_gt post_bets (freq_cap rules) then push violations R_FREQ
                          else violations);
            oddsInvalid = (\<not> isValidAmericanOdds (odds bet));
            gates = (if oddsInvalid \<or> js_ge (odds bet) (odds_gate rules)
                     then push gates R_ODDS else gates);
            flags = (if stake_velocity_spike beh then push flags R_STAKE_SPIKE else flags);
            flags = (if frequency_spike beh then push flags R_FREQ_SPIKE else flags);
            flags = (if js_ge (consecutive_overrides beh) (Finite 2)
                     then push flags R_CONS_OVR else flags);
            flags = (if js_ge (cooldown_violations beh) (Finite 1)
                     then push flags R_CD_HIST else flags);
            v = ALLOW;
            vCount = length violations;
            gCount = length gates;
            v = (if vCount = 0 \<and> gCount = 0 then ALLOW
                 else if vCount = 0 \<and> gCount > 0 then WARN
                 else if vCount = 1 then WARN
                 else if vCount \<ge> 2 then HARD_WARN
                 else v);
            v = (if R_WEEKLY \<in> set violations then RED_ALERT else v);
            v = (if js_ge (consecutive_overrides beh) (Finite 3) then RED_ALERT else v);
            v = (if js_ge (cooldown_violations beh) (Finite 1) \<and> vCount \<ge> 1
                 then RED_ALERT else v);
            v = (if vCount \<ge> 1 \<and> (stake_velocity_spike beh \<or> frequency_spike beh)
                 then escalateOneTier v else v);
            v = (if R_ODDS \<in> set gates \<and> (stake_velocity_spike beh \<or> frequency_spike beh)
                 then maxTier v HARD_WARN else v)
        in \<lparr>verdict = v, reasons = violations @ gates @ flags,
            friction_required = (v \<noteq> ALLOW), cooldown_triggered = (v = RED_ALERT)\<rparr>)"

text \<open>
  The stages of \<open>evaluate_v1\<close> by name: the three lists, the verdict of the base
  mapping and the five amplification rules. \<open>evaluate_v1_stages\<close> below shows that
  \<open>evaluate_v1\<close> is their composition.
\<close>

definition violations_of :: "number \<Rightarrow> UserRules \<Rightarrow> ProposedBet \<Rightarrow> Exposures \<Rightarrow> string list" where
  "violations_of bankroll rules bet exps =
     (if js_gt (stake bet) (js_mul bankroll (js_div (unit_pct rules) (Finite 100)))
      then [R_UNIT] else []) @
     (if js_gt (js_add (daily_staked exps) (stake bet))
               (js_mul bankroll (js_div (daily_pct rules) (Finite 100)))
      then [R_DAILY] else []) @
     (if js_gt (js_add (weekly_staked exps) (stake bet))
               (js_mul bankroll (js_div (weekly_pct rules) (Finite 100)))
      then [R_WEEKLY] else []) @
     (if js_gt (js_add (same_group1_staked exps) (stake bet))
               (js_mul bankroll (js_div (group1_pct rules) (Finite 100)))
      then [R_EVENT] else []) @
     (if js_gt (js_add (same_group2_7d_staked exps) (stake bet))
               (js_mul bankroll (js_div (group2_pct rules) (Finite 100)))
      then [R_TEAM] else []) @
     (if js_gt (js_add (bets_today exps) (Finite 1)) (freq_cap rules)
      then [R_FREQ] else [])"

definition gates_of :: "UserRules \<Rightarrow> ProposedBet \<Rightarrow> string list" where
  "gates_of rules bet =
     (if \<not> isValidAmericanOdds (odds bet) \<or> js_ge (odds bet) (odds_gate rules)
      then [R_ODDS] else [])"

definition flags_of :: "'a BehavioralState_scheme \<Rightarrow> string list" where
  "flags_of beh =
     (if stake_velocity_spike beh then [R_STAKE_SPIKE] else []) @
     (if frequency_spike beh then [R_FREQ_SPIKE] else []) @
     (if js_ge (consecutive_overrides beh) (Finite 2) then [R_CONS_OVR] else []) @
     (if js_ge (cooldown_violations beh) (Finite 1) then [R_CD_HIST] else [])"

definition base_verdict :: "nat \<Rightarrow> nat \<Rightarrow> Verdict" where
  "base_verdict vCount gCount =
     (if vCount = 0 \<and> gCount = 0 then ALLOW
      else if vCount = 0 \<and> gCount > 0 then WARN
      else if vCount = 1 then WARN
      else if vCount \<ge> 2 then HARD_WARN
      else ALLOW)"

definition amplify ::
  "string list \<Rightarrow> string list \<Rightarrow> 'a BehavioralState_scheme \<Rightarrow> Verdict \<Rightarrow> Verdict" where
  "amplify violations gates beh v0 =
     (let v1 = (if R_WEEKLY \<in> set violations then RED_ALERT else v0);
          v2 = (if js_ge (consecutive_overrides beh) (Finite 3) then RED_ALERT else v1);
          v3 = (if js_ge (cooldown_violations beh) (Finite 1) \<and> length violations \<ge> 1
                then RED_ALERT else v2);
          v4 = (if length violations \<ge> 1 \<and> (stake_velocity_spike beh \<or> frequency_spike beh)
                then escalateOneTier v3 else v3)
      in if R_ODDS \<in> set gates \<and> (stake_velocity_spike beh \<or> frequency_spike beh)
         then maxTier v4 HARD_WARN else v4)"

section \<open>The engine with fixed caps (src/app/page.tsx)\<close>

text \<open>
  The first engine of \<open>src/app/page.tsx\<close> takes no rules: its caps are the decimal
  literals \<open>0.02\<close>, \<open>0.06\<close>, \<open>0.20\<close>, \<open>0.04\<close>, \<open>0.08\<close> and its thresholds the
  literals \<open>5\<close> and \<open>250\<close>. A decimal literal denotes the double nearest to its
  decimal value, \<open>round_to_double\<close> of that value. Its behavioural state has three
  more fields, which the engine never reads.
\<close>

record BehavioralState_page = BehavioralState +
  warnings_last_24h :: number
  warnings_last_7d :: number
  overrides_last_7d :: number

definition REASONS_UNIT_SIZE :: string where "REASONS_UNIT_SIZE = ''UNIT_SIZE_CAP_EXCEEDED''"
definition REASONS_DAILY :: string where "REASONS_DAILY = ''DAILY_EXPOSURE_CAP_EXCEEDED''"
definition REASONS_WEEKLY :: string where "REASONS_WEEKLY = ''WEEKLY_EXPOSURE_CAP_EXCEEDED''"
definition REASONS_GROUP1 :: string where
  "REASONS_GROUP1 = ''SAME_EVENT_CONCENTRATION_CAP_EXCEEDED''"
definition REASONS_GROUP2 :: string where
  "REASONS_GROUP2 = ''SAME_TEAM_7D_CONCENTRATION_CAP_EXCEEDED''"
definition REASONS_FREQ :: string where "REASONS_FREQ = ''ACTION_FREQUENCY_CAP_EXCEEDED''"
definition REASONS_ODDS :: string where "REASONS_ODDS = ''HIGH_RISK_ODDS_GATE''"
definition REASONS_STAKE_SPIKE :: string where "REASONS_STAKE_SPIKE = ''STAKE_VELOCITY_SPIKE''"
definition REASONS_FREQ_SPIKE :: string where "REASONS_FREQ_SPIKE = ''FREQUENCY_SPIKE''"
definition REASONS_CONS_OVR :: string where "REASONS_CONS_OVR = ''CONSECUTIVE_OVERRIDES_HIGH''"
definition REASONS_CD_HIST :: string where "REASONS_CD_HIST = ''COOLDOWN_VIOLATION_HISTORY''"
definition REASONS_CD_ACTIVE :: string where "REASONS_CD_ACTIVE = ''COOLDOWN_ACTIVE''"

definition isValidAmericanOdds_page :: "number \<Rightarrow> bool" where
  "isValidAmericanOdds_page n = (Number_isFinite n \<and> Number_isInteger n \<and> n \<noteq> Finite 0)"

definition tierRank :: "Verdict \<Rightarrow> nat" where
  "tierRank v = (if v = ALLOW then 0 else if v = WARN then 1 else if v = HARD_WARN then 2 else 3)"

definition maxTier_page :: "Verdict \<Rightarrow> Verdict \<Rightarrow> Verdict" where
  "maxTier_page a b = (if tierRank a \<ge> tierRank b then a else b)"

definition escalateOneTier_page :: "Verdict \<Rightarrow> Verdict" where
  "escalateOneTier_page v =
     (if v = ALLOW then WARN else if v = WARN then HARD_WARN else RED_ALERT)"

definition evaluate_v1_page ::
  "number \<Rightarrow> ProposedBet \<Rightarrow> Exposures \<Rightarrow> BehavioralState_page \<Rightarrow> DecisionResult" where
  "evaluate_v1_page bankroll bet exposures behavioral =
     (if cooldown_active behavioral = True
      then \<lparr>verdict = RED_ALERT, reasons = [REASONS_CD_ACTIVE],
            friction_required = True, cooldown_triggered = True\<rparr>
      else
        let B = bankroll; S = stake bet;
            unit_cap = js_mul B (round_to_double (2 / 100));
            daily_cap = js_mul B (round_to_double (6 / 100));
            weekly_cap = js_mul B (round_to_double (20 / 100));
            group1_cap = js_mul B (round_to_double (4 / 100));
            group2_cap = js_mul B (round_to_double (8 / 100));
            post_daily = js_add (daily_staked exposures) S;
            post_weekly = js_add (weekly_staked exposures) S;
            post_group1 = js_add (same_group1_staked exposures) S;
            post_group2 = js_add (same_group2_7d_staked exposures) S;
            post_bets = js_add (bets_today exposures) (Finite 1);
            violations = [];
            gates = [];
            flags = [];
            violations = (if js_gt S unit_cap then push violations REASONS_UNIT_SIZE
                          else violations);
            violations = (if js_gt post_daily daily_cap then push violations REASONS_DAILY
                          else violations);
            violations = (if js_gt post_weekly weekly_cap then push violations REASONS_WEEKLY
                          else violations);
            violations = (if js_gt post_group1 group1_cap then push violations REASONS_GROUP1
                          else violations);
            violations = (if js_gt post_group2 group2_cap then push violations REASONS_GROUP2
                          else violations);
            violations = (if js_gt post_bets (Finite 5) then push violations REASONS_FREQ
                          else violations);
            oddsInvalid = (\<not> isValidAmericanOdds_page (odds bet));
            gates = (if oddsInvalid \<or> js_ge (odds bet) (Finite 250)
                     then push gates REASONS_ODDS else gates);
            flags = (if stake_velocity_spike behavioral then push flags REASONS_STAKE_SPIKE
                     else flags);
            flags = (if frequency_spike behavioral then push flags REASONS_FREQ_SPIKE
                     else flags);
            flags = (if js_ge (consecutive_overrides behavioral) (Finite 2)
                     then push flags REASONS_CONS_OVR else flags);
            flags = (if js_ge (cooldown_violations behavioral) (Finite 1)
                     then push flags REASONS_CD_HIST else flags);
            v = ALLOW;
            violationCount = length violations;
            gateCount = length gates;
            v = (if violationCount = 0 \<and> gateCount = 0 then ALLOW
                 else if violationCount = 0 \<and> gateCount > 0 then WARN
                 else if violationCount = 1 then WARN
                 else if violationCount \<ge> 2 then HARD_WARN
                 else v);
            v = (if REASONS_WEEKLY \<in> set violations then RED_ALERT else v);
            v = (if js_ge (consecutive_overrides behavioral) (Finite 3) then RED_ALERT else v);
            v = (if js_ge (cooldown_violations behavioral) (Finite 1) \<and> violationCount \<ge> 1
                 then RED_ALERT else v);
            v = (if violationCount \<ge> 1 \<and>
                    (stake_velocity_spike behavioral \<or> frequency_spike behavioral)
                 then escalateOneTier_page v else v);
            v = (if REASONS_ODDS \<in> set gates \<and>
                    (stake_velocity_spike behavioral \<or> frequency_spike behavioral)
                 then maxTier_page v HARD_WARN else v)
        in \<lparr>verdict = v, reasons = violations @ gates @ flags,
            friction_required = (v \<noteq> ALLOW), cooldown_triggered = (v = RED_ALERT)\<rparr>)"

section \<open>Dates and the exposure aggregation\<close>



















section \<open>Appending to the ledger\<close>

text \<open>\<open>Number(x) || 0\<close> on a number: NaN and zero give zero.\<close>

definition or_zero :: "number \<Rightarrow> number" where
  "or_zero x = (if x = NaN \<or> x = Finite 0 then Finite 0 else x)"

text \<open>
  \<open>addToLedger\<close> of the page component. \<open>String_trim\<close> is \<open>String.prototype.trim\<close> of
  the platform. The other arguments are what the closure reads: the fresh identifier,
  the clock, the form fields, the current decision and the current ledger. The result
  is \<open>next\<close>, the ledger that is set and saved.
\<close>

definition addToLedger ::
  "(string \<Rightarrow> string) \<Rightarrow> string \<Rightarrow> number \<Rightarrow> number \<Rightarrow> number \<Rightarrow> string \<Rightarrow> string
     \<Rightarrow> DecisionResult \<Rightarrow> LedgerEntry list \<Rightarrow> LedgerEntry list" where
  "addToLedger String_trim uuid now stake_in odds_in group1 group2 decision ledger =
     (let entry = \<lparr>id = uuid, ts = now, stake = or_zero stake_in, odds = odds_in,
                   group1_id = String_trim group1, group2_id = String_trim group2,
                   verdict = verdict decision, reasons = reasons decision\<rparr>;
          next = take 500 (entry # ledger)
      in next)"

section \<open>Loading the rules\<close>

text \<open>
  What \<open>JSON.parse\<close> returns. An object keeps its properties in the order of the
  text; a key that occurs again overrides the earlier occurrence when the properties
  are read in order.
\<close>

datatype json =
  JNull | JBool bool | JNum number | JStr string | JArr "json list"
  | JObj "(string \<times> json) list"

text \<open>A JavaScript object as a finite map from property names to values.\<close>

type_synonym js_object = "string \<rightharpoonup> json"

text \<open>The decimal name of an array index.\<close>

definition digit_char :: "nat \<Rightarrow> char" where
  "digit_char d = ''0123456789'' ! d"

fun index_name :: "nat \<Rightarrow> string" where
  "index_name n =
     (if n < 10 then [digit_char n] else index_name (n div 10) @ [digit_char (n mod 10)])"

declare index_name.simps [simp del]

text \<open>
  The own enumerable properties that a spread \<open>...v\<close> copies: the properties of an
  object, the elements of an array and the characters of a string under their
  indices, nothing for \<open>null\<close>, a boolean or a number.
\<close>

fun own_properties :: "json \<Rightarrow> (string \<times> json) list" where
  "own_properties (JObj kvs) = kvs"
| "own_properties (JArr xs) = zip (map index_name [0..<length xs]) xs"
| "own_properties (JStr s) = zip (map index_name [0..<length s]) (map (\<lambda>c. JStr [c]) s)"
| "own_properties v = []"

text \<open>\<open>{...a, ...v}\<close>: the properties of \<open>v\<close> are assigned in order over those of \<open>a\<close>.\<close>

definition spread_over :: "js_object \<Rightarrow> json \<Rightarrow> js_object" where
  "spread_over a v = foldl (\<lambda>m (k, x). m(k \<mapsto> x)) a (own_properties v)"

text \<open>A rules record as the object literal that it is in the source.\<close>

definition rules_object :: "UserRules \<Rightarrow> js_object" where
  "rules_object r =
     [''unit_pct'' \<mapsto> JNum (unit_pct r), ''daily_pct'' \<mapsto> JNum (daily_pct r),
      ''weekly_pct'' \<mapsto> JNum (weekly_pct r), ''group1_pct'' \<mapsto> JNum (group1_pct r),
      ''group2_pct'' \<mapsto> JNum (group2_pct r), ''freq_cap'' \<mapsto> JNum (freq_cap r),
      ''odds_gate'' \<mapsto> JNum (odds_gate r)]"

definition rule_fields :: "string list" where
  "rule_fields =
     [''unit_pct'', ''daily_pct'', ''weekly_pct'', ''group1_pct'', ''group2_pct'',
      ''freq_cap'', ''odds_gate'']"

text \<open>
  \<open>loadRules\<close>. \<open>JSON_parse\<close> is the parser of the platform, \<open>None\<close> where it throws.
  \<open>item\<close> is what \<open>localStorage.getItem(RULES_KEY)\<close> does: \<open>None\<close> where it throws,
  \<open>Some None\<close> for \<open>null\<close>, \<open>Some (Some raw)\<close> for a stored string. The \<open>catch\<close> of the
  source returns the defaults for either exception; \<open>!raw\<close> holds for \<open>null\<close> and for
  the empty string.
\<close>

definition loadRules :: "(string \<Rightarrow> json option) \<Rightarrow> string option option \<Rightarrow> js_object" where
  "loadRules JSON_parse item =
     (case item of
        None \<Rightarrow> rules_object DEFAULT_RULES
      | Some None \<Rightarrow> rules_object DEFAULT_RULES
      | Some (Some raw) \<Rightarrow>
          if raw = [] then rules_object DEFAULT_RULES
          else (case JSON_parse raw of
                  None \<Rightarrow> rules_object DEFAULT_RULES
                | Some parsed \<Rightarrow> spread_over (rules_object DEFAULT_RULES) parsed))"

section \<open>Example inputs\<close>

text \<open>
  The initial state of the form: no spike, no override, no cooldown; an empty ledger's
  exposures; a bet on \<open>EVENT-1\<close> and \<open>TEAM-1\<close> with a given stake and odds.
\<close>

definition quiet :: BehavioralState where
  "quiet = \<lparr>stake_velocity_spike = False, frequency_spike = False,
            consecutive_overrides = Finite 0, cooldown_violations = Finite 0,
            cooldown_active = False\<rparr>"

definition no_exposures :: Exposures where
  "no_exposures = \<lparr>daily_staked = Finite 0, weekly_staked = Finite 0,
                   same_group1_staked = Finite 0, same_group2_7d_staked = Finite 0,
                   bets_today = Finite 0\<rparr>"

definition bet_of :: "number \<Rightarrow> number \<Rightarrow> ProposedBet" where
  "bet_of s k = \<lparr>stake = s, odds = k, group1_id = ''EVENT-1'', group2_id = ''TEAM-1''\<rparr>"

text \<open>A ledger entry with a given time stamp, stake and groups, saved with ALLOW.\<close>

definition entry_of :: "number \<Rightarrow> number \<Rightarrow> string \<Rightarrow> string \<Rightarrow> LedgerEntry" where
  "entry_of t s g1 g2 =
     \<lparr>id = ''id'', ts = t, stake = s, odds = Finite (- 110), group1_id = g1, group2_id = g2,
      verdict = ALLOW, reasons = []\<rparr>"

text \<open>The decision ALLOW with no reason.\<close>

definition allow_decision :: DecisionResult where
  "allow_decision =
     \<lparr>verdict = ALLOW, reasons = [], friction_required = False, cooldown_triggered = False\<rparr>"

text \<open>
  Three stored texts and what \<open>JSON.parse\<close> makes of them: an object with the one
  property \<open>unit_pct\<close>, the array \<open>[7]\<close>, and a text that is no JSON. \<open>parse_example\<close>
  stands for the parser on these texts only.
\<close>

definition stored_unit_pct_3 :: string where
  "stored_unit_pct_3 = [CHR ''{'', CHR 0x22] @ ''unit_pct'' @ [CHR 0x22] @ '':3}''"

definition parse_example :: "string \<Rightarrow> json option" where
  "parse_example s =
     (if s = stored_unit_pct_3 then Some (JObj [(''unit_pct'', JNum (Finite 3))])
      else if s = ''[7]'' then Some (JArr [JNum (Finite 7)])
      else None)"

text \<open>
  What \<open>trim\<close> returns on the group identifiers of the examples: the identifier
  without the blank at either end. \<open>trim_example\<close> stands for \<open>trim\<close> on these strings
  only.
\<close>

definition trim_example :: "string \<Rightarrow> string" where
  "trim_example s = (if s = '' EVENT-2 '' then ''EVENT-2'' else s)"







section \<open>Properties of the number operations\<close>

lemma js_lt_irrefl: "\<not> js_lt x x"
  by (cases x) simp_all

lemma js_gt_irrefl: "\<not> js_gt x x"
  by (simp add: js_gt_def js_lt_irrefl)

text \<open>Rounding leaves every integer below \<open>2^53\<close> in absolute value as it is.\<close>

lemma bitlen_nonneg: "0 \<le> bitlen k"
proof (induction k rule: bitlen.induct)
  case (1 k)
  then show ?case by (cases "k \<le> 0") (simp_all add: bitlen.simps [of k])
qed

lemma bitlen_bounds:
  "0 < k \<Longrightarrow> 2 ^ nat (bitlen k - 1) \<le> k \<and> k < 2 ^ nat (bitlen k)"
proof (induction k rule: bitlen.induct)
  case (1 k)
  show ?case
  proof (cases "k = 1")
    case True
    then show ?thesis by (simp add: bitlen.simps [of 1] bitlen.simps [of 0])
  next
    case False
    with "1.prems" have h: "0 < k div 2" by simp
    from "1.prems" have nle: "\<not> k \<le> 0" by simp
    from "1.IH" [OF nle h]
    have ih: "2 ^ nat (bitlen (k div 2) - 1) \<le> k div 2" "k div 2 < 2 ^ nat (bitlen (k div 2))"
      by simp_all
    have pos: "1 \<le> bitlen (k div 2)"
      using h bitlen_nonneg [of "k div 2 div 2"] by (simp add: bitlen.simps [of "k div 2"])
    have eq: "bitlen k = 1 + bitlen (k div 2)"
      using nle by (simp add: bitlen.simps [of k])
    have n1: "nat (bitlen k - 1) = Suc (nat (bitlen (k div 2) - 1))"
      using pos eq by simp
    have n2: "nat (bitlen k) = Suc (nat (bitlen (k div 2)))"
      using pos eq by simp
    have d1: "2 * (k div 2) \<le> k" by presburger
    have d2: "k < 2 * (k div 2) + 2" by presburger
    show ?thesis
      unfolding n1 n2 power_Suc using ih d1 d2 by linarith
  qed
qed

lemma bitlen_le:
  assumes "0 < k" "k < 2 ^ n"
  shows "bitlen k \<le> int n"
proof -
  from bitlen_bounds [OF assms(1)] assms(2)
  have "(2::int) ^ nat (bitlen k - 1) < 2 ^ n" by linarith
  then have "nat (bitlen k - 1) < n" by simp
  then show ?thesis by linarith
qed

lemma bitlen_pos: "0 < k \<Longrightarrow> 1 \<le> bitlen k"
  using bitlen_nonneg [of "k div 2"] by (simp add: bitlen.simps [of k])

lemma round_half_even_int: "round_half_even (of_int z) = z"
  by (simp add: round_half_even_def)

lemma round_to_double_int:
  assumes "\<bar>n\<bar> < 2 ^ 53"
  shows "round_to_double (of_int n) = Finite (of_int n)"
proof (cases "n = 0")
  case True
  then show ?thesis by (simp add: round_to_double_def)
next
  case False
  define a where "a = \<bar>n\<bar>"
  define e where "e = bitlen a - 1"
  define j where "j = nat (52 - e)"
  have apos: "0 < a" using False by (simp add: a_def)
  have abs_q: "\<bar>of_int n :: rat\<bar> = of_int a" by (simp add: a_def)
  have e0: "0 \<le> e" using bitlen_pos [OF apos] by (simp add: e_def)
  have e52: "e \<le> 52" using bitlen_le [OF apos, of 53] assms by (simp add: e_def a_def)
  have bin: "binade (of_int n) = e"
    using apos by (simp add: binade_def abs_q e_def)
  have ulp: "pow2 (e - 52) = 1 / 2 ^ j"
    using e52 by (cases "e = 52") (simp_all add: pow2_def j_def)
  have quot: "(of_int a :: rat) / (1 / 2 ^ j) = of_int (a * 2 ^ j)"
    by simp
  have m: "round_half_even (\<bar>of_int n\<bar> / (1 / 2 ^ j)) = a * 2 ^ j"
    unfolding abs_q quot by (rule round_half_even_int)
  have bk: "(of_int (a * 2 ^ j) :: rat) * (1 / 2 ^ j) = of_int a"
    by simp
  have sg: "sgn (of_int n :: rat) * of_int a = of_int n"
    by (simp add: a_def sgn_if)
  have mx: "max e (- 1022) = e" using e0 by simp
  have q0: "(of_int n :: rat) \<noteq> 0" using False by simp
  have res: "sgn (of_int n :: rat) * (of_int (a * 2 ^ j) * (1 / 2 ^ j)) = of_int n"
    by (simp only: bk sg)
  have cond: "\<not> (1023 < e \<or> (e = 1023 \<and> 9007199254740992 \<le> a * 2 ^ j))"
    using e52 by simp
  show ?thesis
    unfolding round_to_double_def Let_def bin mx ulp m
    by (simp only: q0 cond if_False res)
qed

lemma round_to_double_numeral:
  "(numeral k :: int) < 9007199254740992 \<Longrightarrow> round_to_double (numeral k) = Finite (numeral k)"
  using round_to_double_int [of "numeral k"] by simp

lemma round_to_double_neg_numeral:
  "(numeral k :: int) < 9007199254740992 \<Longrightarrow>
   round_to_double (- numeral k) = Finite (- numeral k)"
  using round_to_double_int [of "- numeral k"] by simp

lemma round_to_double_0: "round_to_double 0 = Finite 0"
  by (simp add: round_to_double_def)

lemma round_to_double_1: "round_to_double 1 = Finite 1"
  using round_to_double_int [of 1] by simp

lemmas round_to_double_exact =
  round_to_double_numeral round_to_double_neg_numeral round_to_double_0 round_to_double_1

section \<open>The stages of the engine\<close>

lemma push_if: "(if c then push xs x else xs) = xs @ (if c then [x] else [])"
  by (simp add: push_def)

lemma evaluate_v1_stages:
  "evaluate_v1 bankroll rules bet exps beh =
     (if cooldown_active beh
      then \<lparr>verdict = RED_ALERT, reasons = [R_CD_ACTIVE],
            friction_required = True, cooldown_triggered = True\<rparr>
      else
        let violations = violations_of bankroll rules bet exps;
            gates = gates_of rules bet;
            flags = flags_of beh;
            v = amplify violations gates beh (base_verdict (length violations) (length gates))
        in \<lparr>verdict = v, reasons = violations @ gates @ flags,
            friction_required = (v \<noteq> ALLOW), cooldown_triggered = (v = RED_ALERT)\<rparr>)"
  unfolding evaluate_v1_def violations_of_def gates_of_def flags_of_def base_verdict_def
    amplify_def Let_def push_if
  by (simp only: append_assoc append_Nil)

section \<open>The hard stop\<close>

text \<open>
  C1. Whenever \<open>cooldown_active\<close> is true, \<open>evaluate_v1\<close> returns the verdict
  RED_ALERT, the one-element reason list \<open>[COOLDOWN_ACTIVE]\<close>, friction required and
  cooldown triggered, whatever the bankroll, the rules, the bet, the exposures and the
  other behavioural fields are. Both engines do so: the one with rules and the one of
  \<open>src/app/page.tsx\<close>.
\<close>

theorem cooldown_hard_stop:
  "(cooldown_active beh \<longrightarrow>
      evaluate_v1 bankroll rules bet exps beh =
        \<lparr>verdict = RED_ALERT, reasons = [''COOLDOWN_ACTIVE''],
         friction_required = True, cooldown_triggered = True\<rparr>) \<and>
   (cooldown_active behp \<longrightarrow>
      evaluate_v1_page bankroll bet exps behp =
        \<lparr>verdict = RED_ALERT, reasons = [''COOLDOWN_ACTIVE''],
         friction_required = True, cooldown_triggered = True\<rparr>)"
  by (simp add: evaluate_v1_def evaluate_v1_page_def R_CD_ACTIVE_def REASONS_CD_ACTIVE_def)

theorem cooldown_hard_stop_witness:
  "cooldown_active (quiet\<lparr>cooldown_active := True\<rparr>) \<and>
   evaluate_v1 NaN DEFAULT_RULES (bet_of (Finite 25) (Finite 0)) no_exposures
     (quiet\<lparr>cooldown_active := True\<rparr>) =
     \<lparr>verdict = RED_ALERT, reasons = [''COOLDOWN_ACTIVE''],
      friction_required = True, cooldown_triggered = True\<rparr> \<and>
   cooldown_active (BehavioralState.extend (quiet\<lparr>cooldown_active := True\<rparr>)
     \<lparr>warnings_last_24h = Finite 0, warnings_last_7d = Finite 0,
      overrides_last_7d = Finite 0\<rparr>) \<and>
   evaluate_v1_page NaN (bet_of (Finite 25) (Finite 0)) no_exposures
     (BehavioralState.extend (quiet\<lparr>cooldown_active := True\<rparr>)
       \<lparr>warnings_last_24h = Finite 0, warnings_last_7d = Finite 0,
        overrides_last_7d = Finite 0\<rparr>) =
     \<lparr>verdict = RED_ALERT, reasons = [''COOLDOWN_ACTIVE''],
      friction_required = True, cooldown_triggered = True\<rparr>"
  using cooldown_hard_stop [of "quiet\<lparr>cooldown_active := True\<rparr>" NaN DEFAULT_RULES
      "bet_of (Finite 25) (Finite 0)" no_exposures
      "BehavioralState.extend (quiet\<lparr>cooldown_active := True\<rparr>)
         \<lparr>warnings_last_24h = Finite 0, warnings_last_7d = Finite 0,
          overrides_last_7d = Finite 0\<rparr>"]
  by (simp add: quiet_def BehavioralState.extend_def)

section \<open>Reason codes in the result\<close>

lemmas reason_code_defs =
  R_UNIT_def R_DAILY_def R_WEEKLY_def R_EVENT_def R_TEAM_def R_FREQ_def R_ODDS_def
  R_STAKE_SPIKE_def R_FREQ_SPIKE_def R_CONS_OVR_def R_CD_HIST_def R_CD_ACTIVE_def

lemma mem_if_single: "x \<in> set (if c then [y] else []) \<longleftrightarrow> c \<and> x = y"
  by auto

lemma reasons_evaluate_v1:
  "\<not> cooldown_active beh \<Longrightarrow>
   reasons (evaluate_v1 bankroll rules bet exps beh) =
     violations_of bankroll rules bet exps @ gates_of rules bet @ flags_of beh"
  by (simp add: evaluate_v1_stages Let_def)

lemma mem_violations_of:
  "x \<in> set (violations_of bankroll rules bet exps) \<longleftrightarrow>
     (js_gt (stake bet) (js_mul bankroll (js_div (unit_pct rules) (Finite 100))) \<and> x = R_UNIT) \<or>
     (js_gt (js_add (daily_staked exps) (stake bet))
            (js_mul bankroll (js_div (daily_pct rules) (Finite 100))) \<and> x = R_DAILY) \<or>
     (js_gt (js_add (weekly_staked exps) (stake bet))
            (js_mul bankroll (js_div (weekly_pct rules) (Finite 100))) \<and> x = R_WEEKLY) \<or>
     (js_gt (js_add (same_group1_staked exps) (stake bet))
            (js_mul bankroll (js_div (group1_pct rules) (Finite 100))) \<and> x = R_EVENT) \<or>
     (js_gt (js_add (same_group2_7d_staked exps) (stake bet))
            (js_mul bankroll (js_div (group2_pct rules) (Finite 100))) \<and> x = R_TEAM) \<or>
     (js_gt (js_add (bets_today exps) (Finite 1)) (freq_cap rules) \<and> x = R_FREQ)"
  unfolding violations_of_def set_append Un_iff mem_if_single by (rule refl)

lemma mem_gates_of:
  "x \<in> set (gates_of rules bet) \<longleftrightarrow>
     (\<not> isValidAmericanOdds (odds bet) \<or> js_ge (odds bet) (odds_gate rules)) \<and> x = R_ODDS"
  unfolding gates_of_def mem_if_single by (rule refl)

lemma mem_flags_of:
  "x \<in> set (flags_of beh) \<longleftrightarrow>
     (stake_velocity_spike beh \<and> x = R_STAKE_SPIKE) \<or>
     (frequency_spike beh \<and> x = R_FREQ_SPIKE) \<or>
     (js_ge (consecutive_overrides beh) (Finite 2) \<and> x = R_CONS_OVR) \<or>
     (js_ge (cooldown_violations beh) (Finite 1) \<and> x = R_CD_HIST)"
  unfolding flags_of_def set_append Un_iff mem_if_single by (rule refl)

lemmas mem_reasons =
  reasons_evaluate_v1 mem_violations_of mem_gates_of mem_flags_of

section \<open>The cap checks are strict\<close>

lemma unit_cap_example: "js_mul (Finite 1000) (js_div (Finite 2) (Finite 100)) = Finite 20"
  by code_simp

lemma literal_20_01:
  "round_to_double (2001 / 100) = Finite (5632314283980227 / 281474976710656)"
  by code_simp

text \<open>
  C2. With \<open>cooldown_active\<close> false, each of the six violation codes is among the
  reasons exactly when its stake or projected value is strictly greater (\<open>>\<close>) than its
  cap: \<open>>\<close> is irreflexive, and on finite numbers it is the strict order of their
  values, so a value equal to its cap does not add the code. With a bankroll
  of 1000 and \<open>unit_pct\<close> 2 the unit cap is 20; a stake of 20 does not add
  \<open>UNIT_SIZE_CAP_EXCEEDED\<close>, a stake of 20.01 (the double nearest to it) does.
\<close>

theorem cap_checks_strict:
  assumes "\<not> cooldown_active beh"
  shows
   "(R_UNIT \<in> set (reasons (evaluate_v1 bankroll rules bet exps beh)) \<longleftrightarrow>
       js_gt (stake bet) (js_mul bankroll (js_div (unit_pct rules) (Finite 100)))) \<and>
    (R_DAILY \<in> set (reasons (evaluate_v1 bankroll rules bet exps beh)) \<longleftrightarrow>
       js_gt (js_add (daily_staked exps) (stake bet))
             (js_mul bankroll (js_div (daily_pct rules) (Finite 100)))) \<and>
    (R_WEEKLY \<in> set (reasons (evaluate_v1 bankroll rules bet exps beh)) \<longleftrightarrow>
       js_gt (js_add (weekly_staked exps) (stake bet))
             (js_mul bankroll (js_div (weekly_pct rules) (Finite 100)))) \<and>
    (R_EVENT \<in> set (reasons (evaluate_v1 bankroll rules bet exps beh)) \<longleftrightarrow>
       js_gt (js_add (same_group1_staked exps) (stake bet))
             (js_mul bankroll (js_div (group1_pct rules) (Finite 100)))) \<and>
    (R_TEAM \<in> set (reasons (evaluate_v1 bankroll rules bet exps beh)) \<longleftrightarrow>
       js_gt (js_add (same_group2_7d_staked exps) (stake bet))
             (js_mul bankroll (js_div (group2_pct rules) (Finite 100)))) \<and>
    (R_FREQ \<in> set (reasons (evaluate_v1 bankroll rules bet exps beh)) \<longleftrightarrow>
       js_gt (js_add (bets_today exps) (Finite 1)) (freq_cap rules)) \<and>
    (\<forall>x. \<not> js_gt x x) \<and>
    (\<forall>a b. js_gt (Finite a) (Finite b) \<longleftrightarrow> b < a) \<and>
    (bankroll = Finite 1000 \<and> unit_pct rules = Finite 2 \<longrightarrow>
       js_mul bankroll (js_div (unit_pct rules) (Finite 100)) = Finite 20 \<and>
       (stake bet = Finite 20 \<longrightarrow>
          R_UNIT \<notin> set (reasons (evaluate_v1 bankroll rules bet exps beh))) \<and>
       (stake bet = round_to_double (2001 / 100) \<longrightarrow>
          R_UNIT \<in> set (reasons (evaluate_v1 bankroll rules bet exps beh))))"
proof -
  have iffs:
    "R_UNIT \<in> set (reasons (evaluate_v1 bankroll rules bet exps beh)) \<longleftrightarrow>
       js_gt (stake bet) (js_mul bankroll (js_div (unit_pct rules) (Finite 100)))"
    "R_DAILY \<in> set (reasons (evaluate_v1 bankroll rules bet exps beh)) \<longleftrightarrow>
       js_gt (js_add (daily_staked exps) (stake bet))
             (js_mul bankroll (js_div (daily_pct rules) (Finite 100)))"
    "R_WEEKLY \<in> set (reasons (evaluate_v1 bankroll rules bet exps beh)) \<longleftrightarrow>
       js_gt (js_add (weekly_staked exps) (stake bet))
             (js_mul bankroll (js_div (weekly_pct rules) (Finite 100)))"
    "R_EVENT \<in> set (reasons (evaluate_v1 bankroll rules bet exps beh)) \<longleftrightarrow>
       js_gt (js_add (same_group1_staked exps) (stake bet))
             (js_mul bankroll (js_div (group1_pct rules) (Finite 100)))"
    "R_TEAM \<in> set (reasons (evaluate_v1 bankroll rules bet exps beh)) \<longleftrightarrow>
       js_gt (js_add (same_group2_7d_staked exps) (stake bet))
             (js_mul bankroll (js_div (group2_pct rules) (Finite 100)))"
    "R_FREQ \<in> set (reasons (evaluate_v1 bankroll rules bet exps beh)) \<longleftrightarrow>
       js_gt (js_add (bets_today exps) (Finite 1)) (freq_cap rules)"
    using assms by (simp_all add: mem_reasons reason_code_defs)
  have irrefl: "\<forall>x. \<not> js_gt x x"
    by (simp add: js_gt_irrefl)
  have fin: "\<forall>a b. js_gt (Finite a) (Finite b) \<longleftrightarrow> b < a"
    by (simp add: js_gt_def)
  have ex: "bankroll = Finite 1000 \<and> unit_pct rules = Finite 2 \<longrightarrow>
       js_mul bankroll (js_div (unit_pct rules) (Finite 100)) = Finite 20 \<and>
       (stake bet = Finite 20 \<longrightarrow>
          R_UNIT \<notin> set (reasons (evaluate_v1 bankroll rules bet exps beh))) \<and>
       (stake bet = round_to_double (2001 / 100) \<longrightarrow>
          R_UNIT \<in> set (reasons (evaluate_v1 bankroll rules bet exps beh)))"
  proof (intro impI)
    assume a: "bankroll = Finite 1000 \<and> unit_pct rules = Finite 2"
    have cap: "js_mul bankroll (js_div (unit_pct rules) (Finite 100)) = Finite 20"
      using a unit_cap_example by metis
    have lo: "stake bet = Finite 20 \<longrightarrow>
          R_UNIT \<notin> set (reasons (evaluate_v1 bankroll rules bet exps beh))"
      unfolding iffs(1) cap by (simp add: js_gt_def)
    have hi: "stake bet = round_to_double (2001 / 100) \<longrightarrow>
          R_UNIT \<in> set (reasons (evaluate_v1 bankroll rules bet exps beh))"
      unfolding iffs(1) cap literal_20_01 by (simp add: js_gt_def)
    from cap lo hi
    show "js_mul bankroll (js_div (unit_pct rules) (Finite 100)) = Finite 20 \<and>
       (stake bet = Finite 20 \<longrightarrow>
          R_UNIT \<notin> set (reasons (evaluate_v1 bankroll rules bet exps beh))) \<and>
       (stake bet = round_to_double (2001 / 100) \<longrightarrow>
          R_UNIT \<in> set (reasons (evaluate_v1 bankroll rules bet exps beh)))"
      by blast
  qed
  from iffs irrefl fin ex show ?thesis by blast
qed

theorem cap_checks_strict_witness:
  "\<not> cooldown_active quiet \<and>
   unit_pct DEFAULT_RULES = Finite 2 \<and>
   stake (bet_of (Finite 20) (Finite (- 110))) =
     js_mul (Finite 1000) (js_div (unit_pct DEFAULT_RULES) (Finite 100)) \<and>
   R_UNIT \<notin> set (reasons (evaluate_v1 (Finite 1000) DEFAULT_RULES
                (bet_of (Finite 20) (Finite (- 110))) no_exposures quiet)) \<and>
   R_UNIT \<in> set (reasons (evaluate_v1 (Finite 1000) DEFAULT_RULES
                (bet_of (round_to_double (2001 / 100)) (Finite (- 110))) no_exposures quiet))"
proof -
  have q: "\<not> cooldown_active quiet"
    by (simp add: quiet_def)
  have u: "unit_pct DEFAULT_RULES = Finite 2"
    by (simp add: DEFAULT_RULES_def)
  have s1: "stake (bet_of (Finite 20) (Finite (- 110))) = Finite 20"
    by (simp add: bet_of_def)
  have s2: "stake (bet_of (round_to_double (2001 / 100)) (Finite (- 110))) =
              round_to_double (2001 / 100)"
    by (simp add: bet_of_def)
  from cap_checks_strict [OF q, of "Finite 1000" DEFAULT_RULES
         "bet_of (Finite 20) (Finite (- 110))" no_exposures] u s1
  have a: "js_mul (Finite 1000) (js_div (unit_pct DEFAULT_RULES) (Finite 100)) = Finite 20"
    and b: "R_UNIT \<notin> set (reasons (evaluate_v1 (Finite 1000) DEFAULT_RULES
                (bet_of (Finite 20) (Finite (- 110))) no_exposures quiet))"
    by blast+
  from cap_checks_strict [OF q, of "Finite 1000" DEFAULT_RULES
         "bet_of (round_to_double (2001 / 100)) (Finite (- 110))" no_exposures] u s2
  have c: "R_UNIT \<in> set (reasons (evaluate_v1 (Finite 1000) DEFAULT_RULES
                (bet_of (round_to_double (2001 / 100)) (Finite (- 110))) no_exposures quiet))"
    by blast
  from q u s1 a b c show ?thesis by simp
qed

section \<open>Verdicts: the base mapping and the amplification\<close>

lemma verdict_evaluate_v1:
  "\<not> cooldown_active beh \<Longrightarrow>
   verdict (evaluate_v1 bankroll rules bet exps beh) =
     amplify (violations_of bankroll rules bet exps) (gates_of rules bet) beh
       (base_verdict (length (violations_of bankroll rules bet exps))
          (length (gates_of rules bet)))"
  by (simp add: evaluate_v1_stages Let_def)

lemma length_if_single: "length (if c then [y] else []) = (if c then 1 else 0)"
  by simp

lemma length_violations_of:
  "length (violations_of bankroll rules bet exps) =
     (if js_gt (stake bet) (js_mul bankroll (js_div (unit_pct rules) (Finite 100)))
      then 1 else 0) +
     ((if js_gt (js_add (daily_staked exps) (stake bet))
            (js_mul bankroll (js_div (daily_pct rules) (Finite 100))) then 1 else 0) +
     ((if js_gt (js_add (weekly_staked exps) (stake bet))
            (js_mul bankroll (js_div (weekly_pct rules) (Finite 100))) then 1 else 0) +
     ((if js_gt (js_add (same_group1_staked exps) (stake bet))
            (js_mul bankroll (js_div (group1_pct rules) (Finite 100))) then 1 else 0) +
     ((if js_gt (js_add (same_group2_7d_staked exps) (stake bet))
            (js_mul bankroll (js_div (group2_pct rules) (Finite 100))) then 1 else 0) +
      (if js_gt (js_add (bets_today exps) (Finite 1)) (freq_cap rules) then 1 else 0)))))"
  unfolding violations_of_def length_append length_if_single by (rule refl)

lemma length_gates_of:
  "length (gates_of rules bet) =
     (if \<not> isValidAmericanOdds (odds bet) \<or> js_ge (odds bet) (odds_gate rules) then 1 else 0)"
  unfolding gates_of_def length_if_single by (rule refl)

lemma amplify_none:
  assumes "R_WEEKLY \<notin> set violations"
    and "\<not> js_ge (consecutive_overrides beh) (Finite 3)"
    and "\<not> js_ge (cooldown_violations beh) (Finite 1)"
    and "\<not> stake_velocity_spike beh" and "\<not> frequency_spike beh"
  shows "amplify violations gates beh v0 = v0"
  using assms by (simp add: amplify_def)

lemma rank_escalate: "rank v \<le> rank (escalateOneTier v)"
  by (cases v) (simp_all add: rank_def escalateOneTier_def)

lemma rank_maxTier: "rank v \<le> rank (maxTier v w)"
  by (simp add: maxTier_def)

lemma rank_le_RED: "rank v \<le> rank RED_ALERT"
  by (cases v) (simp_all add: rank_def)

lemma amplify_mono: "rank v0 \<le> rank (amplify violations gates beh v0)"
proof -
  define v1 where "v1 = (if R_WEEKLY \<in> set violations then RED_ALERT else v0)"
  define v2 where
    "v2 = (if js_ge (consecutive_overrides beh) (Finite 3) then RED_ALERT else v1)"
  define v3 where
    "v3 = (if js_ge (cooldown_violations beh) (Finite 1) \<and> length violations \<ge> 1
           then RED_ALERT else v2)"
  define v4 where
    "v4 = (if length violations \<ge> 1 \<and> (stake_velocity_spike beh \<or> frequency_spike beh)
           then escalateOneTier v3 else v3)"
  define v5 where
    "v5 = (if R_ODDS \<in> set gates \<and> (stake_velocity_spike beh \<or> frequency_spike beh)
           then maxTier v4 HARD_WARN else v4)"
  have "rank v0 \<le> rank v1" by (simp add: v1_def rank_le_RED)
  also have "rank v1 \<le> rank v2" by (simp add: v2_def rank_le_RED)
  also have "rank v2 \<le> rank v3" by (simp add: v3_def rank_le_RED)
  also have "rank v3 \<le> rank v4" by (simp add: v4_def rank_escalate)
  also have "rank v4 \<le> rank v5" by (simp add: v5_def rank_maxTier)
  finally have "rank v0 \<le> rank v5" .
  moreover have "amplify violations gates beh v0 = v5"
    by (simp only: amplify_def Let_def v1_def v2_def v3_def v4_def v5_def)
  ultimately show ?thesis by simp
qed

text \<open>Values of the caps and thresholds used in the examples.\<close>

lemma default_caps_1000:
  "js_mul (Finite 1000) (js_div (unit_pct DEFAULT_RULES) (Finite 100)) = Finite 20"
  "js_mul (Finite 1000) (js_div (daily_pct DEFAULT_RULES) (Finite 100)) = Finite 60"
  "js_mul (Finite 1000) (js_div (weekly_pct DEFAULT_RULES) (Finite 100)) = Finite 200"
  "js_mul (Finite 1000) (js_div (group1_pct DEFAULT_RULES) (Finite 100)) = Finite 40"
  "js_mul (Finite 1000) (js_div (group2_pct DEFAULT_RULES) (Finite 100)) = Finite 80"
  by code_simp+

lemma default_thresholds:
  "freq_cap DEFAULT_RULES = Finite 5" "odds_gate DEFAULT_RULES = Finite 250"
  by (simp_all add: DEFAULT_RULES_def)

lemmas eval_inputs =
  default_caps_1000 default_thresholds bet_of_def no_exposures_def quiet_def
  round_to_double_exact js_gt_def js_ge_def js_le_def isValidAmericanOdds_def

text \<open>
  C3. With \<open>cooldown_active\<close> false, let \<open>v\<close> be the number of cap checks that fire
  (the length of the violations list) and \<open>g\<close> the number of gates that fire. The
  verdict of \<open>evaluate_v1\<close> is the amplification applied to \<open>base_verdict v g\<close>, and
  \<open>base_verdict v g\<close> is ALLOW for \<open>v = 0\<close>, \<open>g = 0\<close>; WARN for \<open>v = 0\<close>, \<open>g > 0\<close>; WARN
  for \<open>v = 1\<close>; HARD_WARN for \<open>v \<ge> 2\<close>. Where no amplification rule applies, it is the
  verdict returned.
\<close>

theorem base_verdict_mapping:
  assumes "\<not> cooldown_active beh"
    and "v = length (violations_of bankroll rules bet exps)"
    and "g = length (gates_of rules bet)"
  shows
   "verdict (evaluate_v1 bankroll rules bet exps beh) =
      amplify (violations_of bankroll rules bet exps) (gates_of rules bet) beh
        (base_verdict v g) \<and>
    (v = 0 \<and> g = 0 \<longrightarrow> base_verdict v g = ALLOW) \<and>
    (v = 0 \<and> g > 0 \<longrightarrow> base_verdict v g = WARN) \<and>
    (v = 1 \<longrightarrow> base_verdict v g = WARN) \<and>
    (v \<ge> 2 \<longrightarrow> base_verdict v g = HARD_WARN) \<and>
    v = length (filter (\<lambda>b. b)
          [js_gt (stake bet) (js_mul bankroll (js_div (unit_pct rules) (Finite 100))),
           js_gt (js_add (daily_staked exps) (stake bet))
                 (js_mul bankroll (js_div (daily_pct rules) (Finite 100))),
           js_gt (js_add (weekly_staked exps) (stake bet))
                 (js_mul bankroll (js_div (weekly_pct rules) (Finite 100))),
           js_gt (js_add (same_group1_staked exps) (stake bet))
                 (js_mul bankroll (js_div (group1_pct rules) (Finite 100))),
           js_gt (js_add (same_group2_7d_staked exps) (stake bet))
                 (js_mul bankroll (js_div (group2_pct rules) (Finite 100))),
           js_gt (js_add (bets_today exps) (Finite 1)) (freq_cap rules)]) \<and>
    g = length (filter (\<lambda>b. b)
          [\<not> isValidAmericanOdds (odds bet) \<or> js_ge (odds bet) (odds_gate rules)]) \<and>
    (\<not> js_gt (js_add (weekly_staked exps) (stake bet))
             (js_mul bankroll (js_div (weekly_pct rules) (Finite 100))) \<and>
     \<not> js_ge (consecutive_overrides beh) (Finite 3) \<and>
     \<not> js_ge (cooldown_violations beh) (Finite 1) \<and>
     \<not> stake_velocity_spike beh \<and> \<not> frequency_spike beh \<longrightarrow>
       verdict (evaluate_v1 bankroll rules bet exps beh) = base_verdict v g)"
proof -
  have a: "verdict (evaluate_v1 bankroll rules bet exps beh) =
      amplify (violations_of bankroll rules bet exps) (gates_of rules bet) beh
        (base_verdict v g)"
    using assms by (simp add: verdict_evaluate_v1)
  have b: "(v = 0 \<and> g = 0 \<longrightarrow> base_verdict v g = ALLOW) \<and>
    (v = 0 \<and> g > 0 \<longrightarrow> base_verdict v g = WARN) \<and>
    (v = 1 \<longrightarrow> base_verdict v g = WARN) \<and>
    (v \<ge> 2 \<longrightarrow> base_verdict v g = HARD_WARN)"
    by (simp add: base_verdict_def)
  have c: "v = length (filter (\<lambda>b. b)
          [js_gt (stake bet) (js_mul bankroll (js_div (unit_pct rules) (Finite 100))),
           js_gt (js_add (daily_staked exps) (stake bet))
                 (js_mul bankroll (js_div (daily_pct rules) (Finite 100))),
           js_gt (js_add (weekly_staked exps) (stake bet))
                 (js_mul bankroll (js_div (weekly_pct rules) (Finite 100))),
           js_gt (js_add (same_group1_staked exps) (stake bet))
                 (js_mul bankroll (js_div (group1_pct rules) (Finite 100))),
           js_gt (js_add (same_group2_7d_staked exps) (stake bet))
                 (js_mul bankroll (js_div (group2_pct rules) (Finite 100))),
           js_gt (js_add (bets_today exps) (Finite 1)) (freq_cap rules)])"
    unfolding assms(2) length_violations_of by simp
  have d: "g = length (filter (\<lambda>b. b)
          [\<not> isValidAmericanOdds (odds bet) \<or> js_ge (odds bet) (odds_gate rules)])"
    unfolding assms(3) length_gates_of by simp
  have e: "\<not> js_gt (js_add (weekly_staked exps) (stake bet))
             (js_mul bankroll (js_div (weekly_pct rules) (Finite 100))) \<and>
     \<not> js_ge (consecutive_overrides beh) (Finite 3) \<and>
     \<not> js_ge (cooldown_violations beh) (Finite 1) \<and>
     \<not> stake_velocity_spike beh \<and> \<not> frequency_spike beh \<longrightarrow>
       verdict (evaluate_v1 bankroll rules bet exps beh) = base_verdict v g"
  proof
    assume h: "\<not> js_gt (js_add (weekly_staked exps) (stake bet))
             (js_mul bankroll (js_div (weekly_pct rules) (Finite 100))) \<and>
     \<not> js_ge (consecutive_overrides beh) (Finite 3) \<and>
     \<not> js_ge (cooldown_violations beh) (Finite 1) \<and>
     \<not> stake_velocity_spike beh \<and> \<not> frequency_spike beh"
    then have w: "R_WEEKLY \<notin> set (violations_of bankroll rules bet exps)"
      by (simp add: mem_violations_of reason_code_defs)
    show "verdict (evaluate_v1 bankroll rules bet exps beh) = base_verdict v g"
      unfolding a using h by (intro amplify_none [OF w]) simp_all
  qed
  from a b c d e show ?thesis by blast
qed


theorem base_verdict_mapping_witness:
  "\<not> cooldown_active quiet \<and>
   0 = length (violations_of (Finite 1000) DEFAULT_RULES (bet_of (Finite 20) (Finite (- 110)))
                 no_exposures) \<and>
   0 = length (gates_of DEFAULT_RULES (bet_of (Finite 20) (Finite (- 110)))) \<and>
   verdict (evaluate_v1 (Finite 1000) DEFAULT_RULES (bet_of (Finite 20) (Finite (- 110)))
              no_exposures quiet) = ALLOW \<and>
   0 = length (violations_of (Finite 1000) DEFAULT_RULES (bet_of (Finite 20) (Finite 300))
                 no_exposures) \<and>
   1 = length (gates_of DEFAULT_RULES (bet_of (Finite 20) (Finite 300))) \<and>
   verdict (evaluate_v1 (Finite 1000) DEFAULT_RULES (bet_of (Finite 20) (Finite 300))
              no_exposures quiet) = WARN \<and>
   1 = length (violations_of (Finite 1000) DEFAULT_RULES (bet_of (Finite 25) (Finite (- 110)))
                 no_exposures) \<and>
   verdict (evaluate_v1 (Finite 1000) DEFAULT_RULES (bet_of (Finite 25) (Finite (- 110)))
              no_exposures quiet) = WARN \<and>
   3 = length (violations_of (Finite 1000) DEFAULT_RULES (bet_of (Finite 70) (Finite (- 110)))
                 no_exposures) \<and>
   verdict (evaluate_v1 (Finite 1000) DEFAULT_RULES (bet_of (Finite 70) (Finite (- 110)))
              no_exposures quiet) = HARD_WARN"
proof -
  have q: "\<not> cooldown_active quiet"
    by (simp add: quiet_def)
  have v1: "0 = length (violations_of (Finite 1000) DEFAULT_RULES
                  (bet_of (Finite 20) (Finite (- 110))) no_exposures)"
    by (simp add: violations_of_def eval_inputs)
  have g1: "0 = length (gates_of DEFAULT_RULES (bet_of (Finite 20) (Finite (- 110))))"
    by (simp add: gates_of_def eval_inputs)
  have v2: "0 = length (violations_of (Finite 1000) DEFAULT_RULES
                  (bet_of (Finite 20) (Finite 300)) no_exposures)"
    by (simp add: violations_of_def eval_inputs)
  have g2: "1 = length (gates_of DEFAULT_RULES (bet_of (Finite 20) (Finite 300)))"
    by (simp add: gates_of_def eval_inputs)
  have v3: "1 = length (violations_of (Finite 1000) DEFAULT_RULES
                  (bet_of (Finite 25) (Finite (- 110))) no_exposures)"
    by (simp add: violations_of_def eval_inputs)
  have v4: "3 = length (violations_of (Finite 1000) DEFAULT_RULES
                  (bet_of (Finite 70) (Finite (- 110))) no_exposures)"
    by (simp add: violations_of_def eval_inputs)
  have qc: "\<not> js_ge (consecutive_overrides quiet) (Finite 3)"
    "\<not> js_ge (cooldown_violations quiet) (Finite 1)"
    "\<not> stake_velocity_spike quiet" "\<not> frequency_spike quiet"
    by (simp_all add: quiet_def js_ge_def js_le_def)
  have wk: "\<not> js_gt (js_add (weekly_staked no_exposures) (stake (bet_of (Finite 20) k)))
                (js_mul (Finite 1000) (js_div (weekly_pct DEFAULT_RULES) (Finite 100)))"
    "\<not> js_gt (js_add (weekly_staked no_exposures) (stake (bet_of (Finite 25) k)))
                (js_mul (Finite 1000) (js_div (weekly_pct DEFAULT_RULES) (Finite 100)))"
    "\<not> js_gt (js_add (weekly_staked no_exposures) (stake (bet_of (Finite 70) k)))
                (js_mul (Finite 1000) (js_div (weekly_pct DEFAULT_RULES) (Finite 100)))"
    for k
    by (simp_all add: eval_inputs)
  have r1: "verdict (evaluate_v1 (Finite 1000) DEFAULT_RULES
              (bet_of (Finite 20) (Finite (- 110))) no_exposures quiet) = ALLOW"
    using qc wk
      base_verdict_mapping [OF q v1 g1, THEN conjunct2, THEN conjunct1]
      base_verdict_mapping [OF q v1 g1, THEN conjunct2, THEN conjunct2, THEN conjunct2, THEN conjunct2, THEN conjunct2, THEN conjunct2, THEN conjunct2]
    by simp
  have r2: "verdict (evaluate_v1 (Finite 1000) DEFAULT_RULES
              (bet_of (Finite 20) (Finite 300)) no_exposures quiet) = WARN"
    using qc wk
      base_verdict_mapping [OF q v2 g2, THEN conjunct2, THEN conjunct2, THEN conjunct1]
      base_verdict_mapping [OF q v2 g2, THEN conjunct2, THEN conjunct2, THEN conjunct2, THEN conjunct2, THEN conjunct2, THEN conjunct2, THEN conjunct2]
    by simp
  have r3: "verdict (evaluate_v1 (Finite 1000) DEFAULT_RULES
              (bet_of (Finite 25) (Finite (- 110))) no_exposures quiet) = WARN"
    using qc wk
      base_verdict_mapping [OF q v3 refl, THEN conjunct2, THEN conjunct2, THEN conjunct2, THEN conjunct1]
      base_verdict_mapping [OF q v3 refl, THEN conjunct2, THEN conjunct2, THEN conjunct2, THEN conjunct2, THEN conjunct2, THEN conjunct2, THEN conjunct2]
    by simp
  have r4: "verdict (evaluate_v1 (Finite 1000) DEFAULT_RULES
              (bet_of (Finite 70) (Finite (- 110))) no_exposures quiet) = HARD_WARN"
    using qc wk
      base_verdict_mapping [OF q v4 refl, THEN conjunct2, THEN conjunct2, THEN conjunct2, THEN conjunct2, THEN conjunct1]
      base_verdict_mapping [OF q v4 refl, THEN conjunct2, THEN conjunct2, THEN conjunct2, THEN conjunct2, THEN conjunct2, THEN conjunct2, THEN conjunct2]
    by simp
  from q v1 g1 r1 v2 g2 r2 v3 r3 v4 r4 show ?thesis by blast
qed

text \<open>
  C4. With \<open>cooldown_active\<close> false, the verdict returned is at least the verdict of
  the base mapping in the order ALLOW < WARN < HARD_WARN < RED_ALERT, which \<open>rank\<close>
  embeds into the naturals: the five amplification rules never lower the verdict.
\<close>

theorem amplification_never_lowers:
  assumes "\<not> cooldown_active beh"
  shows
   "rank (base_verdict (length (violations_of bankroll rules bet exps))
            (length (gates_of rules bet)))
      \<le> rank (verdict (evaluate_v1 bankroll rules bet exps beh)) \<and>
    rank ALLOW < rank WARN \<and> rank WARN < rank HARD_WARN \<and> rank HARD_WARN < rank RED_ALERT \<and>
    (\<forall>a b. rank a = rank b \<longrightarrow> a = b)"
proof -
  have "rank (base_verdict (length (violations_of bankroll rules bet exps))
            (length (gates_of rules bet)))
      \<le> rank (verdict (evaluate_v1 bankroll rules bet exps beh))"
    unfolding verdict_evaluate_v1 [OF assms] by (rule amplify_mono)
  moreover have "rank ALLOW < rank WARN \<and> rank WARN < rank HARD_WARN \<and>
      rank HARD_WARN < rank RED_ALERT"
    by (simp add: rank_def)
  moreover have "\<forall>a b. rank a = rank b \<longrightarrow> a = b"
  proof (intro allI impI)
    fix a b assume "rank a = rank b"
    then show "a = b" by (cases a; cases b) (simp_all add: rank_def)
  qed
  ultimately show ?thesis by blast
qed

theorem amplification_never_lowers_witness:
  "\<not> cooldown_active (quiet\<lparr>stake_velocity_spike := True\<rparr>) \<and>
   rank (base_verdict
           (length (violations_of (Finite 1000) DEFAULT_RULES
                      (bet_of (Finite 25) (Finite (- 110))) no_exposures))
           (length (gates_of DEFAULT_RULES (bet_of (Finite 25) (Finite (- 110))))))
     \<le> rank (verdict (evaluate_v1 (Finite 1000) DEFAULT_RULES
                (bet_of (Finite 25) (Finite (- 110))) no_exposures
                (quiet\<lparr>stake_velocity_spike := True\<rparr>))) \<and>
   base_verdict
     (length (violations_of (Finite 1000) DEFAULT_RULES
                (bet_of (Finite 25) (Finite (- 110))) no_exposures))
     (length (gates_of DEFAULT_RULES (bet_of (Finite 25) (Finite (- 110))))) = WARN \<and>
   verdict (evaluate_v1 (Finite 1000) DEFAULT_RULES
              (bet_of (Finite 25) (Finite (- 110))) no_exposures
              (quiet\<lparr>stake_velocity_spike := True\<rparr>)) = HARD_WARN"
proof -
  have q: "\<not> cooldown_active (quiet\<lparr>stake_velocity_spike := True\<rparr>)"
    by (simp add: quiet_def)
  have v: "violations_of (Finite 1000) DEFAULT_RULES
             (bet_of (Finite 25) (Finite (- 110))) no_exposures = [R_UNIT]"
    by (simp add: violations_of_def eval_inputs)
  have g: "gates_of DEFAULT_RULES (bet_of (Finite 25) (Finite (- 110))) = []"
    by (simp add: gates_of_def eval_inputs)
  have b: "base_verdict
     (length (violations_of (Finite 1000) DEFAULT_RULES
                (bet_of (Finite 25) (Finite (- 110))) no_exposures))
     (length (gates_of DEFAULT_RULES (bet_of (Finite 25) (Finite (- 110))))) = WARN"
    unfolding v g by (simp add: base_verdict_def)
  have r: "verdict (evaluate_v1 (Finite 1000) DEFAULT_RULES
              (bet_of (Finite 25) (Finite (- 110))) no_exposures
              (quiet\<lparr>stake_velocity_spike := True\<rparr>)) = HARD_WARN"
    unfolding verdict_evaluate_v1 [OF q] v g
    by (simp add: base_verdict_def amplify_def escalateOneTier_def quiet_def js_ge_def
        js_le_def reason_code_defs)
  from q amplification_never_lowers [OF q, of "Finite 1000" DEFAULT_RULES
         "bet_of (Finite 25) (Finite (- 110))" no_exposures] b r
  show ?thesis by blast
qed

section \<open>The order of the reasons\<close>

lemma select_cons:
  "map fst (filter snd ((a, c) # xs)) = (if c then [a] else []) @ map fst (filter snd xs)"
  by simp

lemma all_codes_distinct:
  "distinct [R_UNIT, R_DAILY, R_WEEKLY, R_EVENT, R_TEAM, R_FREQ, R_ODDS,
             R_STAKE_SPIKE, R_FREQ_SPIKE, R_CONS_OVR, R_CD_HIST]"
  by (simp add: reason_code_defs)

lemma reasons_selected:
  assumes "\<not> cooldown_active beh"
  shows "reasons (evaluate_v1 bankroll rules bet exps beh) =
     map fst (filter snd
       [(R_UNIT, js_gt (stake bet) (js_mul bankroll (js_div (unit_pct rules) (Finite 100)))),
        (R_DAILY, js_gt (js_add (daily_staked exps) (stake bet))
                    (js_mul bankroll (js_div (daily_pct rules) (Finite 100)))),
        (R_WEEKLY, js_gt (js_add (weekly_staked exps) (stake bet))
                    (js_mul bankroll (js_div (weekly_pct rules) (Finite 100)))),
        (R_EVENT, js_gt (js_add (same_group1_staked exps) (stake bet))
                    (js_mul bankroll (js_div (group1_pct rules) (Finite 100)))),
        (R_TEAM, js_gt (js_add (same_group2_7d_staked exps) (stake bet))
                    (js_mul bankroll (js_div (group2_pct rules) (Finite 100)))),
        (R_FREQ, js_gt (js_add (bets_today exps) (Finite 1)) (freq_cap rules)),
        (R_ODDS, \<not> isValidAmericanOdds (odds bet) \<or> js_ge (odds bet) (odds_gate rules)),
        (R_STAKE_SPIKE, stake_velocity_spike beh),
        (R_FREQ_SPIKE, frequency_spike beh),
        (R_CONS_OVR, js_ge (consecutive_overrides beh) (Finite 2)),
        (R_CD_HIST, js_ge (cooldown_violations beh) (Finite 1))])"
  unfolding reasons_evaluate_v1 [OF assms] violations_of_def gates_of_def flags_of_def
    select_cons
  by (simp only: filter.simps list.map append_Nil2 append_assoc)

text \<open>
  C5. With \<open>cooldown_active\<close> false, the reasons are the violations in the order of
  the six cap checks, then the gate, then the flags in the order of the four
  behavioural checks: the list of the codes whose checks fire, in that fixed order.
  It is \<open>violations @ gates @ flags\<close>, and no code occurs twice.
\<close>

theorem reasons_order:
  assumes "\<not> cooldown_active beh"
  shows
   "reasons (evaluate_v1 bankroll rules bet exps beh) =
      ((if js_gt (stake bet) (js_mul bankroll (js_div (unit_pct rules) (Finite 100)))
        then [''UNIT_SIZE_CAP_EXCEEDED''] else []) @
       (if js_gt (js_add (daily_staked exps) (stake bet))
                 (js_mul bankroll (js_div (daily_pct rules) (Finite 100)))
        then [''DAILY_EXPOSURE_CAP_EXCEEDED''] else []) @
       (if js_gt (js_add (weekly_staked exps) (stake bet))
                 (js_mul bankroll (js_div (weekly_pct rules) (Finite 100)))
        then [''WEEKLY_EXPOSURE_CAP_EXCEEDED''] else []) @
       (if js_gt (js_add (same_group1_staked exps) (stake bet))
                 (js_mul bankroll (js_div (group1_pct rules) (Finite 100)))
        then [''SAME_EVENT_CONCENTRATION_CAP_EXCEEDED''] else []) @
       (if js_gt (js_add (same_group2_7d_staked exps) (stake bet))
                 (js_mul bankroll (js_div (group2_pct rules) (Finite 100)))
        then [''SAME_TEAM_7D_CONCENTRATION_CAP_EXCEEDED''] else []) @
       (if js_gt (js_add (bets_today exps) (Finite 1)) (freq_cap rules)
        then [''ACTION_FREQUENCY_CAP_EXCEEDED''] else [])) @
      (if \<not> isValidAmericanOdds (odds bet) \<or> js_ge (odds bet) (odds_gate rules)
       then [''HIGH_RISK_ODDS_GATE''] else []) @
      ((if stake_velocity_spike beh then [''STAKE_VELOCITY_SPIKE''] else []) @
       (if frequency_spike beh then [''FREQUENCY_SPIKE''] else []) @
       (if js_ge (consecutive_overrides beh) (Finite 2)
        then [''CONSECUTIVE_OVERRIDES_HIGH''] else []) @
       (if js_ge (cooldown_violations beh) (Finite 1)
        then [''COOLDOWN_VIOLATION_HISTORY''] else [])) \<and>
    reasons (evaluate_v1 bankroll rules bet exps beh) =
      violations_of bankroll rules bet exps @ gates_of rules bet @ flags_of beh \<and>
    distinct (reasons (evaluate_v1 bankroll rules bet exps beh))"
proof -
  have a: "reasons (evaluate_v1 bankroll rules bet exps beh) =
      violations_of bankroll rules bet exps @ gates_of rules bet @ flags_of beh"
    by (rule reasons_evaluate_v1 [OF assms])
  have b: "distinct (reasons (evaluate_v1 bankroll rules bet exps beh))"
    unfolding reasons_selected [OF assms]
    by (rule distinct_map_filter) (simp only: list.map fst_conv all_codes_distinct)
  show ?thesis
    unfolding conj_assoc [symmetric]
    apply (intro conjI)
    subgoal unfolding a violations_of_def gates_of_def flags_of_def reason_code_defs
      by (rule refl)
    subgoal by (rule a)
    subgoal by (rule b)
    done
qed

theorem reasons_order_witness:
  "\<not> cooldown_active (quiet\<lparr>stake_velocity_spike := True, cooldown_violations := Finite 1\<rparr>) \<and>
   reasons (evaluate_v1 (Finite 1000) DEFAULT_RULES (bet_of (Finite 70) (Finite 300))
              no_exposures
              (quiet\<lparr>stake_velocity_spike := True, cooldown_violations := Finite 1\<rparr>)) =
     [''UNIT_SIZE_CAP_EXCEEDED'', ''DAILY_EXPOSURE_CAP_EXCEEDED'',
      ''SAME_EVENT_CONCENTRATION_CAP_EXCEEDED'', ''HIGH_RISK_ODDS_GATE'',
      ''STAKE_VELOCITY_SPIKE'', ''COOLDOWN_VIOLATION_HISTORY'']"
proof -
  have q: "\<not> cooldown_active
             (quiet\<lparr>stake_velocity_spike := True, cooldown_violations := Finite 1\<rparr>)"
    by (simp add: quiet_def)
  show ?thesis
    using reasons_order [OF q, of "Finite 1000" DEFAULT_RULES
        "bet_of (Finite 70) (Finite 300)" no_exposures, THEN conjunct1]
    by (simp add: eval_inputs)
qed

section \<open>The odds gate\<close>

lemma isValidAmericanOdds_iff:
  "isValidAmericanOdds n \<longleftrightarrow> (\<exists>k::int. k \<noteq> 0 \<and> n = Finite (of_int k))"
proof (cases n)
  case (Finite a)
  show ?thesis
  proof
    assume "isValidAmericanOdds n"
    then have "of_int \<lfloor>a\<rfloor> = a" "a \<noteq> 0"
      using Finite by (simp_all add: isValidAmericanOdds_def)
    then have "\<lfloor>a\<rfloor> \<noteq> 0 \<and> n = Finite (of_int \<lfloor>a\<rfloor>)"
      using Finite by auto
    then show "\<exists>k::int. k \<noteq> 0 \<and> n = Finite (of_int k)" by blast
  next
    assume "\<exists>k::int. k \<noteq> 0 \<and> n = Finite (of_int k)"
    then show "isValidAmericanOdds n"
      by (auto simp: isValidAmericanOdds_def)
  qed
qed (simp_all add: isValidAmericanOdds_def)

lemma literal_150_5: "round_to_double (1505 / 10) = Finite (301 / 2)"
  by code_simp

lemma invalid_150_5: "\<not> isValidAmericanOdds (Finite (301 / 2))"
  by code_simp

text \<open>
  C6. With \<open>cooldown_active\<close> false, the gates list is \<open>[HIGH_RISK_ODDS_GATE]\<close> when the
  odds are invalid (not finite, not an integer, or zero) or at least
  \<open>rules.odds_gate\<close>, and empty otherwise. The code is among the reasons exactly in
  that case, whatever the bankroll, the exposures and the cap checks are; the valid
  odds are the non-zero integers. Odds of 0 and of 150.5 fire the gate under any
  threshold; odds of 150 under the threshold 250 do not.
\<close>

theorem odds_gate_rule:
  assumes "\<not> cooldown_active beh"
  shows
   "reasons (evaluate_v1 bankroll rules bet exps beh) =
      violations_of bankroll rules bet exps @ gates_of rules bet @ flags_of beh \<and>
    gates_of rules bet =
      (if \<not> (Number_isFinite (odds bet) \<and> Number_isInteger (odds bet) \<and> odds bet \<noteq> Finite 0)
          \<or> js_ge (odds bet) (odds_gate rules)
       then [''HIGH_RISK_ODDS_GATE''] else []) \<and>
    (''HIGH_RISK_ODDS_GATE'' \<in> set (reasons (evaluate_v1 bankroll rules bet exps beh)) \<longleftrightarrow>
       \<not> (\<exists>k::int. k \<noteq> 0 \<and> odds bet = Finite (of_int k)) \<or>
       js_ge (odds bet) (odds_gate rules)) \<and>
    (odds bet = Finite 0 \<longrightarrow>
       ''HIGH_RISK_ODDS_GATE'' \<in> set (reasons (evaluate_v1 bankroll rules bet exps beh))) \<and>
    (odds bet = round_to_double (1505 / 10) \<longrightarrow>
       ''HIGH_RISK_ODDS_GATE'' \<in> set (reasons (evaluate_v1 bankroll rules bet exps beh))) \<and>
    (odds bet = Finite 150 \<and> odds_gate rules = Finite 250 \<longrightarrow>
       ''HIGH_RISK_ODDS_GATE'' \<notin> set (reasons (evaluate_v1 bankroll rules bet exps beh)))"
proof -
  have a: "reasons (evaluate_v1 bankroll rules bet exps beh) =
      violations_of bankroll rules bet exps @ gates_of rules bet @ flags_of beh"
    by (rule reasons_evaluate_v1 [OF assms])
  have b: "gates_of rules bet =
      (if \<not> (Number_isFinite (odds bet) \<and> Number_isInteger (odds bet) \<and> odds bet \<noteq> Finite 0)
          \<or> js_ge (odds bet) (odds_gate rules)
       then [''HIGH_RISK_ODDS_GATE''] else [])"
    unfolding gates_of_def isValidAmericanOdds_def R_ODDS_def by (rule refl)
  have m: "''HIGH_RISK_ODDS_GATE'' \<in> set (reasons (evaluate_v1 bankroll rules bet exps beh)) \<longleftrightarrow>
       \<not> isValidAmericanOdds (odds bet) \<or> js_ge (odds bet) (odds_gate rules)"
    using assms by (simp add: mem_reasons reason_code_defs)
  have c: "''HIGH_RISK_ODDS_GATE'' \<in> set (reasons (evaluate_v1 bankroll rules bet exps beh)) \<longleftrightarrow>
       \<not> (\<exists>k::int. k \<noteq> 0 \<and> odds bet = Finite (of_int k)) \<or>
       js_ge (odds bet) (odds_gate rules)"
    unfolding m isValidAmericanOdds_iff by (rule refl)
  have d: "odds bet = Finite 0 \<longrightarrow>
       ''HIGH_RISK_ODDS_GATE'' \<in> set (reasons (evaluate_v1 bankroll rules bet exps beh))"
    unfolding m by (simp add: isValidAmericanOdds_def)
  have e: "odds bet = round_to_double (1505 / 10) \<longrightarrow>
       ''HIGH_RISK_ODDS_GATE'' \<in> set (reasons (evaluate_v1 bankroll rules bet exps beh))"
    unfolding m literal_150_5 using invalid_150_5 by auto
  have f: "odds bet = Finite 150 \<and> odds_gate rules = Finite 250 \<longrightarrow>
       ''HIGH_RISK_ODDS_GATE'' \<notin> set (reasons (evaluate_v1 bankroll rules bet exps beh))"
    unfolding m by (simp add: isValidAmericanOdds_def js_ge_def js_le_def)
  from a b c d e f show ?thesis by blast
qed

theorem odds_gate_rule_witness:
  "\<not> cooldown_active quiet \<and>
   odds (bet_of (Finite 20) (Finite 0)) = Finite 0 \<and>
   ''HIGH_RISK_ODDS_GATE'' \<in> set (reasons (evaluate_v1 (Finite 1000) DEFAULT_RULES
       (bet_of (Finite 20) (Finite 0)) no_exposures quiet)) \<and>
   odds (bet_of (Finite 20) (round_to_double (1505 / 10))) = round_to_double (1505 / 10) \<and>
   ''HIGH_RISK_ODDS_GATE'' \<in> set (reasons (evaluate_v1 (Finite 1000) DEFAULT_RULES
       (bet_of (Finite 20) (round_to_double (1505 / 10))) no_exposures quiet)) \<and>
   odds (bet_of (Finite 20) (Finite 150)) = Finite 150 \<and>
   odds_gate DEFAULT_RULES = Finite 250 \<and>
   ''HIGH_RISK_ODDS_GATE'' \<notin> set (reasons (evaluate_v1 (Finite 1000) DEFAULT_RULES
       (bet_of (Finite 20) (Finite 150)) no_exposures quiet))"
proof -
  have q: "\<not> cooldown_active quiet"
    by (simp add: quiet_def)
  have o1: "odds (bet_of (Finite 20) (Finite 0)) = Finite 0"
    and o2: "odds (bet_of (Finite 20) (round_to_double (1505 / 10))) =
               round_to_double (1505 / 10)"
    and o3: "odds (bet_of (Finite 20) (Finite 150)) = Finite 150"
    by (simp_all add: bet_of_def)
  have g: "odds_gate DEFAULT_RULES = Finite 250"
    by (simp add: DEFAULT_RULES_def)
  from odds_gate_rule [OF q, of "Finite 1000" DEFAULT_RULES
         "bet_of (Finite 20) (Finite 0)" no_exposures] o1
  have r1: "''HIGH_RISK_ODDS_GATE'' \<in> set (reasons (evaluate_v1 (Finite 1000) DEFAULT_RULES
       (bet_of (Finite 20) (Finite 0)) no_exposures quiet))"
    by blast
  from odds_gate_rule [OF q, of "Finite 1000" DEFAULT_RULES
         "bet_of (Finite 20) (round_to_double (1505 / 10))" no_exposures] o2
  have r2: "''HIGH_RISK_ODDS_GATE'' \<in> set (reasons (evaluate_v1 (Finite 1000) DEFAULT_RULES
       (bet_of (Finite 20) (round_to_double (1505 / 10))) no_exposures quiet))"
    by blast
  from odds_gate_rule [OF q, of "Finite 1000" DEFAULT_RULES
         "bet_of (Finite 20) (Finite 150)" no_exposures] o3 g
  have r3: "''HIGH_RISK_ODDS_GATE'' \<notin> set (reasons (evaluate_v1 (Finite 1000) DEFAULT_RULES
       (bet_of (Finite 20) (Finite 150)) no_exposures quiet))"
    by blast
  from q o1 r1 o2 r2 o3 g r3 show ?thesis by blast
qed

section \<open>The two engines agree under the default rules\<close>

lemma page_codes:
  "REASONS_UNIT_SIZE = R_UNIT" "REASONS_DAILY = R_DAILY" "REASONS_WEEKLY = R_WEEKLY"
  "REASONS_GROUP1 = R_EVENT" "REASONS_GROUP2 = R_TEAM" "REASONS_FREQ = R_FREQ"
  "REASONS_ODDS = R_ODDS" "REASONS_STAKE_SPIKE = R_STAKE_SPIKE"
  "REASONS_FREQ_SPIKE = R_FREQ_SPIKE" "REASONS_CONS_OVR = R_CONS_OVR"
  "REASONS_CD_HIST = R_CD_HIST" "REASONS_CD_ACTIVE = R_CD_ACTIVE"
  by (simp_all only: REASONS_UNIT_SIZE_def REASONS_DAILY_def REASONS_WEEKLY_def
      REASONS_GROUP1_def REASONS_GROUP2_def REASONS_FREQ_def REASONS_ODDS_def
      REASONS_STAKE_SPIKE_def REASONS_FREQ_SPIKE_def REASONS_CONS_OVR_def
      REASONS_CD_HIST_def REASONS_CD_ACTIVE_def reason_code_defs)

lemma page_helpers:
  "isValidAmericanOdds_page n = isValidAmericanOdds n"
  "maxTier_page a b = maxTier a b"
  "escalateOneTier_page v = escalateOneTier v"
  by (simp_all only: isValidAmericanOdds_page_def isValidAmericanOdds_def maxTier_page_def
      maxTier_def tierRank_def rank_def escalateOneTier_page_def escalateOneTier_def)

lemma default_percentages:
  "js_div (unit_pct DEFAULT_RULES) (Finite 100) = round_to_double (2 / 100)"
  "js_div (daily_pct DEFAULT_RULES) (Finite 100) = round_to_double (6 / 100)"
  "js_div (weekly_pct DEFAULT_RULES) (Finite 100) = round_to_double (20 / 100)"
  "js_div (group1_pct DEFAULT_RULES) (Finite 100) = round_to_double (4 / 100)"
  "js_div (group2_pct DEFAULT_RULES) (Finite 100) = round_to_double (8 / 100)"
  by (simp_all add: DEFAULT_RULES_def)

lemma evaluate_v1_page_eq:
  "evaluate_v1_page bankroll bet exps behp = evaluate_v1 bankroll DEFAULT_RULES bet exps behp"
  unfolding evaluate_v1_page_def evaluate_v1_def page_codes page_helpers default_percentages
    default_thresholds eq_True
  by (rule refl)

lemma extend_fields:
  "stake_velocity_spike (BehavioralState.extend beh w) = stake_velocity_spike beh"
  "frequency_spike (BehavioralState.extend beh w) = frequency_spike beh"
  "consecutive_overrides (BehavioralState.extend beh w) = consecutive_overrides beh"
  "cooldown_violations (BehavioralState.extend beh w) = cooldown_violations beh"
  "cooldown_active (BehavioralState.extend beh w) = cooldown_active beh"
  by (simp_all add: BehavioralState.extend_def)

lemma truncate_fields:
  "stake_velocity_spike (BehavioralState.truncate behp) = stake_velocity_spike behp"
  "frequency_spike (BehavioralState.truncate behp) = frequency_spike behp"
  "consecutive_overrides (BehavioralState.truncate behp) = consecutive_overrides behp"
  "cooldown_violations (BehavioralState.truncate behp) = cooldown_violations behp"
  "cooldown_active (BehavioralState.truncate behp) = cooldown_active behp"
  by (simp_all add: BehavioralState.truncate_def)

lemma evaluate_v1_extend:
  "evaluate_v1 bankroll rules bet exps (BehavioralState.extend beh w) =
   evaluate_v1 bankroll rules bet exps beh"
  by (simp only: evaluate_v1_stages flags_of_def amplify_def extend_fields)

lemma evaluate_v1_truncate:
  "evaluate_v1 bankroll rules bet exps (BehavioralState.truncate behp) =
   evaluate_v1 bankroll rules bet exps behp"
  by (simp only: evaluate_v1_stages flags_of_def amplify_def truncate_fields)

text \<open>
  C10. The engine of \<open>src/app/page.tsx\<close>, with its caps of 2, 6, 20, 4 and 8 per
  cent, its frequency cap 5 and its odds gate 250, returns the same result (verdict,
  reasons in order, friction and cooldown flags) as the engine with rules applied
  to \<open>DEFAULT_RULES\<close>, for every bankroll, bet, exposure snapshot and behavioural
  state. The state of the page engine has three more fields; the two states
  correspond by dropping them or by adding any values for them.
\<close>

theorem engines_agree:
  "evaluate_v1_page bankroll bet exps behp =
     evaluate_v1 bankroll DEFAULT_RULES bet exps (BehavioralState.truncate behp) \<and>
   evaluate_v1_page bankroll bet exps (BehavioralState.extend beh w) =
     evaluate_v1 bankroll DEFAULT_RULES bet exps beh"
  by (simp only: evaluate_v1_page_eq evaluate_v1_extend evaluate_v1_truncate)

theorem engines_agree_witness:
  "evaluate_v1_page (Finite 1000) (bet_of (Finite 70) (Finite 300)) no_exposures
     (BehavioralState.extend (quiet\<lparr>frequency_spike := True\<rparr>)
        \<lparr>warnings_last_24h = Finite 0, warnings_last_7d = Finite 0,
         overrides_last_7d = Finite 0\<rparr>) =
   evaluate_v1 (Finite 1000) DEFAULT_RULES (bet_of (Finite 70) (Finite 300)) no_exposures
     (quiet\<lparr>frequency_spike := True\<rparr>)"
  by (rule engines_agree [THEN conjunct2])

section \<open>The ledger after an append\<close>

lemma sorted_wrt_take: "sorted_wrt P xs \<Longrightarrow> sorted_wrt P (take n xs)"
  by (induction xs arbitrary: n) (auto simp: take_Cons' dest: in_set_takeD)

lemma sorted_wrt_replicate_refl: "P x x \<Longrightarrow> sorted_wrt P (replicate n x)"
  by (induction n) auto

text \<open>
  C9. For every current ledger, \<open>addToLedger\<close> puts the new entry at the front and
  keeps the first 499 entries of the current ledger behind it, unchanged and in their
  order; what it drops is the tail of the current ledger from position 499 on, the
  old end. The result has at most 500 entries (\<open>min 500 (length + 1)\<close>), whatever the
  length of the current ledger. Nothing is dropped from a ledger of fewer than 500
  entries. When the current ledger is ordered by time stamp, most recent first, and the
  clock is not behind its time stamps, the result is ordered so too.
\<close>

theorem ledger_append:
  "addToLedger String_trim uuid now stake_in odds_in group1 group2 decision ledger =
     \<lparr>id = uuid, ts = now, stake = or_zero stake_in, odds = odds_in,
      group1_id = String_trim group1, group2_id = String_trim group2,
      verdict = verdict decision, reasons = reasons decision\<rparr> # take 499 ledger \<and>
   length (addToLedger String_trim uuid now stake_in odds_in group1 group2 decision ledger) =
     min 500 (Suc (length ledger)) \<and>
   length (addToLedger String_trim uuid now stake_in odds_in group1 group2 decision ledger) \<le> 500 \<and>
   tl (addToLedger String_trim uuid now stake_in odds_in group1 group2 decision ledger) @ drop 499 ledger =
     ledger \<and>
   (length ledger < 500 \<longrightarrow>
      tl (addToLedger String_trim uuid now stake_in odds_in group1 group2 decision ledger) = ledger) \<and>
   (sorted_wrt (\<lambda>a b. js_ge (ts a) (ts b)) ledger \<and> (\<forall>e \<in> set ledger. js_ge now (ts e)) \<longrightarrow>
      sorted_wrt (\<lambda>a b. js_ge (ts a) (ts b))
        (addToLedger String_trim uuid now stake_in odds_in group1 group2 decision ledger))"
proof -
  define entry where "entry =
     \<lparr>id = uuid, ts = now, stake = or_zero stake_in, odds = odds_in,
      group1_id = String_trim group1, group2_id = String_trim group2,
      verdict = verdict decision, reasons = reasons decision\<rparr>"
  have a: "addToLedger String_trim uuid now stake_in odds_in group1 group2 decision ledger =
             entry # take 499 ledger"
    by (simp add: addToLedger_def entry_def take_Cons')
  have t: "ts entry = now"
    by (simp add: entry_def)
  have s: "sorted_wrt (\<lambda>a b. js_ge (ts a) (ts b)) ledger \<and>
           (\<forall>e \<in> set ledger. js_ge now (ts e)) \<longrightarrow>
           sorted_wrt (\<lambda>a b. js_ge (ts a) (ts b)) (entry # take 499 ledger)"
    by (auto simp: t sorted_wrt_take dest: in_set_takeD)
  show ?thesis
    unfolding a using s by (simp add: entry_def min_def)
qed

theorem ledger_append_witness:
  "sorted_wrt (\<lambda>a b. js_ge (ts a) (ts b))
     (replicate 500 (entry_of (Finite 1000) (Finite 20) ''EVENT-1'' ''TEAM-1'')) \<and>
   set (replicate 500 (entry_of (Finite 1000) (Finite 20) ''EVENT-1'' ''TEAM-1'')) =
     {entry_of (Finite 1000) (Finite 20) ''EVENT-1'' ''TEAM-1''} \<and>
   js_ge (Finite 2000) (ts (entry_of (Finite 1000) (Finite 20) ''EVENT-1'' ''TEAM-1'')) \<and>
   length (addToLedger trim_example ''new'' (Finite 2000) (Finite 25) (Finite (- 110)) '' EVENT-2 '' ''TEAM-1''
             allow_decision
             (replicate 500 (entry_of (Finite 1000) (Finite 20) ''EVENT-1'' ''TEAM-1''))) = 500 \<and>
   sorted_wrt (\<lambda>a b. js_ge (ts a) (ts b))
     (addToLedger trim_example ''new'' (Finite 2000) (Finite 25) (Finite (- 110)) '' EVENT-2 '' ''TEAM-1''
        allow_decision
        (replicate 500 (entry_of (Finite 1000) (Finite 20) ''EVENT-1'' ''TEAM-1''))) \<and>
   length [entry_of (Finite 1000) (Finite 20) ''EVENT-1'' ''TEAM-1''] < 500 \<and>
   tl (addToLedger trim_example ''new'' (Finite 2000) (Finite 25) (Finite (- 110)) '' EVENT-2 '' ''TEAM-1''
         allow_decision [entry_of (Finite 1000) (Finite 20) ''EVENT-1'' ''TEAM-1'']) =
     [entry_of (Finite 1000) (Finite 20) ''EVENT-1'' ''TEAM-1'']"
proof -
  define e0 where "e0 = entry_of (Finite 1000) (Finite 20) ''EVENT-1'' ''TEAM-1''"
  have t0: "ts e0 = Finite 1000"
    by (simp add: e0_def entry_of_def)
  have h1: "sorted_wrt (\<lambda>a b. js_ge (ts a) (ts b)) (replicate 500 e0)"
    by (rule sorted_wrt_replicate_refl) (simp add: t0 js_ge_def js_le_def)
  have h2: "\<forall>e \<in> set (replicate 500 e0). js_ge (Finite 2000) (ts e)"
    by (simp add: t0 js_ge_def js_le_def)
  note T = ledger_append [of trim_example "''new''" "Finite 2000" "Finite 25" "Finite (- 110)"
      "'' EVENT-2 ''" "''TEAM-1''" allow_decision]
  have r1: "length (addToLedger trim_example ''new'' (Finite 2000) (Finite 25) (Finite (- 110))
             '' EVENT-2 '' ''TEAM-1'' allow_decision (replicate 500 e0)) = 500"
    using T [of "replicate 500 e0", THEN conjunct2, THEN conjunct1] by simp
  have r2: "sorted_wrt (\<lambda>a b. js_ge (ts a) (ts b))
     (addToLedger trim_example ''new'' (Finite 2000) (Finite 25) (Finite (- 110)) '' EVENT-2 '' ''TEAM-1''
        allow_decision (replicate 500 e0))"
    using T [of "replicate 500 e0"] h1 h2 by blast
  have h3: "length [e0] < 500"
    by simp
  have r3: "tl (addToLedger trim_example ''new'' (Finite 2000) (Finite 25) (Finite (- 110))
             '' EVENT-2 '' ''TEAM-1'' allow_decision [e0]) = [e0]"
    using T [of "[e0]"] h3 by blast
  have h2a: "set (replicate 500 e0) = {e0}"
    by simp
  have h2b: "js_ge (Finite 2000) (ts e0)"
    by (simp add: t0 js_ge_def js_le_def)
  from h1 h2a h2b r1 r2 h3 r3 show ?thesis
    unfolding e0_def by blast
qed

section \<open>The rules after loading\<close>

lemma digit_char_digit: "d < 10 \<Longrightarrow> digit_char d \<in> set ''0123456789''"
  unfolding digit_char_def by (rule nth_mem) simp

lemma index_name_digits: "set (index_name n) \<subseteq> set ''0123456789''"
proof (induction n rule: index_name.induct)
  case (1 n)
  show ?case
  proof (cases "n < 10")
    case True
    then show ?thesis
      using digit_char_digit [of n] by (subst index_name.simps) simp
  next
    case False
    have "n mod 10 < 10" by simp
    from digit_char_digit [OF this] "1.IH" [OF False] False
    show ?thesis
      by (subst index_name.simps) simp
  qed
qed

lemma rule_field_not_index:
  assumes "f \<in> set rule_fields"
  shows "f \<noteq> index_name n"
proof
  assume "f = index_name n"
  with index_name_digits [of n] have "set f \<subseteq> set ''0123456789''" by simp
  moreover from assms have "CHR ''_'' \<in> set f"
    by (auto simp: rule_fields_def)
  ultimately show False by auto
qed

lemma keys_of_zip: "length ks = length xs \<Longrightarrow> fst ` set (zip ks xs) = set ks"
  by (simp flip: set_map)

lemma rule_field_not_own_index:
  assumes "f \<in> set rule_fields" "\<forall>kvs. v \<noteq> JObj kvs"
  shows "f \<notin> fst ` set (own_properties v)"
proof (cases v)
  case (JArr xs)
  have "fst ` set (own_properties v) = set (map index_name [0..<length xs])"
    unfolding JArr own_properties.simps by (rule keys_of_zip) simp
  then show ?thesis using rule_field_not_index [OF assms(1)] by auto
next
  case (JStr s)
  have "fst ` set (own_properties v) = set (map index_name [0..<length s])"
    unfolding JStr own_properties.simps by (rule keys_of_zip) simp
  then show ?thesis using rule_field_not_index [OF assms(1)] by auto
next
  case (JObj kvs)
  with assms(2) show ?thesis by simp
qed simp_all

lemma foldl_update_lookup:
  "foldl (\<lambda>m (k, x). m(k \<mapsto> x)) a kvs f =
     (case map_of (rev kvs) f of None \<Rightarrow> a f | Some x \<Rightarrow> Some x)"
  by (induction kvs rule: rev_induct) (auto split: option.splits)

lemma spread_over_lookup:
  "spread_over a v f =
     (case map_of (rev (own_properties v)) f of None \<Rightarrow> a f | Some x \<Rightarrow> Some x)"
  unfolding spread_over_def by (rule foldl_update_lookup)

lemma spread_over_absent:
  assumes "f \<notin> fst ` set (own_properties v)"
  shows "spread_over a v f = a f"
proof -
  from assms have "f \<notin> fst ` set (rev (own_properties v))" by simp
  then have "map_of (rev (own_properties v)) f = None"
    by (simp add: map_of_eq_None_iff)
  then show ?thesis by (simp add: spread_over_lookup)
qed


lemma default_object_values:
  "rules_object DEFAULT_RULES ''unit_pct'' = Some (JNum (Finite 2))"
  "rules_object DEFAULT_RULES ''daily_pct'' = Some (JNum (Finite 6))"
  "rules_object DEFAULT_RULES ''weekly_pct'' = Some (JNum (Finite 20))"
  "rules_object DEFAULT_RULES ''group1_pct'' = Some (JNum (Finite 4))"
  "rules_object DEFAULT_RULES ''group2_pct'' = Some (JNum (Finite 8))"
  "rules_object DEFAULT_RULES ''freq_cap'' = Some (JNum (Finite 5))"
  "rules_object DEFAULT_RULES ''odds_gate'' = Some (JNum (Finite 250))"
  by (simp_all add: rules_object_def DEFAULT_RULES_def)

lemma default_object_defined:
  "f \<in> set rule_fields \<Longrightarrow> rules_object DEFAULT_RULES f \<noteq> None"
  using default_object_values by (auto simp: rule_fields_def)

lemma loadRules_cases:
  "loadRules JSON_parse item = rules_object DEFAULT_RULES \<or>
   (\<exists>raw parsed. item = Some (Some raw) \<and> raw \<noteq> [] \<and> JSON_parse raw = Some parsed \<and>
      loadRules JSON_parse item = spread_over (rules_object DEFAULT_RULES) parsed)"
  by (auto simp: loadRules_def split: option.splits)

text \<open>
  C8. \<open>loadRules\<close> returns the object of the default rules, exactly, when the storage
  cannot be read, holds nothing (\<open>null\<close> or the empty string) or holds a text that
  \<open>JSON.parse\<close> rejects. When the stored text parses, every property that the parsed
  value does not have is the default one; a parsed value that is no object (\<open>null\<close>,
  a boolean, a number, a string, an array) leaves all seven rule fields at their
  defaults. Whatever is stored, each of the seven rule fields is defined after loading,
  and the defaults are 2, 6, 20, 4, 8, 5 and 250, none of them zero.
\<close>

theorem loadRules_defaults:
  "(item = None \<or> item = Some None \<or> item = Some (Some []) \<or>
    (\<exists>raw. item = Some (Some raw) \<and> JSON_parse raw = None) \<longrightarrow>
      loadRules JSON_parse item = rules_object DEFAULT_RULES) \<and>
   (\<forall>raw parsed. item = Some (Some raw) \<and> raw \<noteq> [] \<and> JSON_parse raw = Some parsed \<longrightarrow>
      (\<forall>f. f \<notin> fst ` set (own_properties parsed) \<longrightarrow>
           loadRules JSON_parse item f = rules_object DEFAULT_RULES f) \<and>
      ((\<forall>kvs. parsed \<noteq> JObj kvs) \<longrightarrow>
         (\<forall>f \<in> set rule_fields.
            loadRules JSON_parse item f = rules_object DEFAULT_RULES f))) \<and>
   (\<forall>f \<in> set rule_fields. loadRules JSON_parse item f \<noteq> None) \<and>
   rules_object DEFAULT_RULES ''unit_pct'' = Some (JNum (Finite 2)) \<and>
   rules_object DEFAULT_RULES ''daily_pct'' = Some (JNum (Finite 6)) \<and>
   rules_object DEFAULT_RULES ''weekly_pct'' = Some (JNum (Finite 20)) \<and>
   rules_object DEFAULT_RULES ''group1_pct'' = Some (JNum (Finite 4)) \<and>
   rules_object DEFAULT_RULES ''group2_pct'' = Some (JNum (Finite 8)) \<and>
   rules_object DEFAULT_RULES ''freq_cap'' = Some (JNum (Finite 5)) \<and>
   rules_object DEFAULT_RULES ''odds_gate'' = Some (JNum (Finite 250))"
proof -
  have a: "item = None \<or> item = Some None \<or> item = Some (Some []) \<or>
    (\<exists>raw. item = Some (Some raw) \<and> JSON_parse raw = None) \<longrightarrow>
      loadRules JSON_parse item = rules_object DEFAULT_RULES"
    by (auto simp: loadRules_def)
  have b: "\<forall>raw parsed. item = Some (Some raw) \<and> raw \<noteq> [] \<and> JSON_parse raw = Some parsed \<longrightarrow>
      (\<forall>f. f \<notin> fst ` set (own_properties parsed) \<longrightarrow>
           loadRules JSON_parse item f = rules_object DEFAULT_RULES f) \<and>
      ((\<forall>kvs. parsed \<noteq> JObj kvs) \<longrightarrow>
         (\<forall>f \<in> set rule_fields.
            loadRules JSON_parse item f = rules_object DEFAULT_RULES f))"
  proof (intro allI impI)
    fix raw parsed
    assume h: "item = Some (Some raw) \<and> raw \<noteq> [] \<and> JSON_parse raw = Some parsed"
    then have l: "loadRules JSON_parse item = spread_over (rules_object DEFAULT_RULES) parsed"
      by (simp add: loadRules_def)
    show "(\<forall>f. f \<notin> fst ` set (own_properties parsed) \<longrightarrow>
           loadRules JSON_parse item f = rules_object DEFAULT_RULES f) \<and>
      ((\<forall>kvs. parsed \<noteq> JObj kvs) \<longrightarrow>
         (\<forall>f \<in> set rule_fields.
            loadRules JSON_parse item f = rules_object DEFAULT_RULES f))"
      unfolding l using spread_over_absent rule_field_not_own_index by blast
  qed
  have c: "\<forall>f \<in> set rule_fields. loadRules JSON_parse item f \<noteq> None"
  proof
    fix f assume f: "f \<in> set rule_fields"
    from loadRules_cases [of JSON_parse item] show "loadRules JSON_parse item f \<noteq> None"
    proof
      assume "loadRules JSON_parse item = rules_object DEFAULT_RULES"
      then show ?thesis using default_object_defined [OF f] by simp
    next
      assume "\<exists>raw parsed. item = Some (Some raw) \<and> raw \<noteq> [] \<and>
        JSON_parse raw = Some parsed \<and>
        loadRules JSON_parse item = spread_over (rules_object DEFAULT_RULES) parsed"
      then obtain parsed where
        "loadRules JSON_parse item = spread_over (rules_object DEFAULT_RULES) parsed"
        by blast
      then show ?thesis
        using default_object_defined [OF f]
        by (simp add: spread_over_lookup split: option.splits)
    qed
  qed
  from a b c default_object_values show ?thesis by blast
qed

theorem loadRules_defaults_witness:
  "loadRules parse_example None = rules_object DEFAULT_RULES \<and>
   loadRules parse_example (Some None) = rules_object DEFAULT_RULES \<and>
   parse_example ''{not json'' = None \<and>
   loadRules parse_example (Some (Some ''{not json'')) = rules_object DEFAULT_RULES \<and>
   stored_unit_pct_3 \<noteq> [] \<and>
   parse_example stored_unit_pct_3 = Some (JObj [(''unit_pct'', JNum (Finite 3))]) \<and>
   ''daily_pct'' \<notin> fst ` set (own_properties (JObj [(''unit_pct'', JNum (Finite 3))])) \<and>
   loadRules parse_example (Some (Some stored_unit_pct_3)) ''daily_pct'' =
     Some (JNum (Finite 6)) \<and>
   parse_example ''[7]'' = Some (JArr [JNum (Finite 7)]) \<and>
   ''unit_pct'' \<in> set rule_fields \<and>
   loadRules parse_example (Some (Some ''[7]'')) ''unit_pct'' = Some (JNum (Finite 2))"
proof -
  have p1: "parse_example ''{not json'' = None"
    by (simp add: parse_example_def stored_unit_pct_3_def)
  have n2: "stored_unit_pct_3 \<noteq> []"
    by (simp add: stored_unit_pct_3_def)
  have p2: "parse_example stored_unit_pct_3 = Some (JObj [(''unit_pct'', JNum (Finite 3))])"
    by (simp add: parse_example_def)
  have k2: "''daily_pct'' \<notin> fst ` set (own_properties (JObj [(''unit_pct'', JNum (Finite 3))]))"
    by simp
  have p3: "parse_example ''[7]'' = Some (JArr [JNum (Finite 7)])"
    by (simp add: parse_example_def stored_unit_pct_3_def)
  have f3: "''unit_pct'' \<in> set rule_fields"
    by (simp add: rule_fields_def)
  have r0: "loadRules parse_example None = rules_object DEFAULT_RULES"
    using loadRules_defaults [of None parse_example] by blast
  have r1: "loadRules parse_example (Some None) = rules_object DEFAULT_RULES"
    using loadRules_defaults [of "Some None" parse_example] by blast
  have r2: "loadRules parse_example (Some (Some ''{not json'')) = rules_object DEFAULT_RULES"
    using loadRules_defaults [of "Some (Some ''{not json'')" parse_example] p1 by blast
  have r3: "loadRules parse_example (Some (Some stored_unit_pct_3)) ''daily_pct'' =
              rules_object DEFAULT_RULES ''daily_pct''"
    using loadRules_defaults [of "Some (Some stored_unit_pct_3)" parse_example] n2 p2 k2
    by blast
  have r4: "loadRules parse_example (Some (Some ''[7]'')) ''unit_pct'' =
              rules_object DEFAULT_RULES ''unit_pct''"
    using loadRules_defaults [of "Some (Some ''[7]'')" parse_example] p3 f3
    by (elim conjE) simp
  from r0 r1 p1 r2 n2 p2 k2 r3 p3 f3 r4 show ?thesis
    by (simp add: default_object_values)
qed

section \<open>The exposures of a ledger\<close>

























end
